theory Spec2Isabelle
  imports Main "HOL-Library.AList" "HOL-Library.Sublist" "HOL-Library.List_Lexorder" "HOL-Library.Char_ord"
begin

section \<open>Data model of the chat server (acto-bacend.js)\<close>

text \<open>
  The server keeps four global containers: the JavaScript Maps \<open>users\<close>, \<open>chats\<close> and
  \<open>messages\<close> and the Set \<open>onlineUsers\<close>. A JavaScript Map iterates in insertion order and
  \<open>set\<close> on a key that is present keeps the key's position, so a Map is an association list
  with \<open>AList.update\<close> (replace in place, else append), \<open>AList.delete\<close> and \<open>map_of\<close>.
  A Set is a list without repetitions, extended at its end.

  Identifiers (user ids, chat ids, socket ids) are strings. Time stamps are an integer number
  of milliseconds: the source stores \<open>new Date().toISOString()\<close> and reads it back with
  \<open>new Date(...).getTime()\<close>, which is exact to the millisecond. The clock (\<open>now\<close>) is an
  argument of every handler that reads it.
\<close>

record user =
  u_id :: string
  u_socketId :: string
  u_username :: string
  u_displayName :: string
  u_isOnline :: bool
  u_lastSeen :: int

record chat =
  c_id :: string
  c_type :: string
  c_name :: string
  c_description :: "string option"
  c_participants :: "string list"
  c_admins :: "string list"
  c_owner :: string
  c_createdAt :: int

text \<open>
  \<open>messageData\<close> is the object the client sent; the server stores it as it came and reads
  only \<open>chatId\<close> (and, for the log line, \<open>senderUsername\<close> and \<open>content\<close>). The other fields
  are the ones the message of the data model carries.
\<close>

record message =
  m_id :: string
  m_chatId :: string
  m_senderId :: string
  m_senderUsername :: string
  m_content :: string
  m_readBy :: "string list"

text \<open>The payloads of the inbound events \<open>user-online\<close> and \<open>create-chat\<close>.\<close>

record user_data =
  ud_userId :: string
  ud_username :: string
  ud_displayName :: string

record chat_data =
  cd_id :: string
  cd_type :: string
  cd_name :: string
  cd_description :: "string option"
  cd_participants :: "string list"
  cd_admins :: "string list option"
  cd_creatorId :: string

text \<open>The events the server emits, one constructor per event name, with its payload.\<close>

datatype server_event =
    UsersOnline "string list"
  | NewMessage message
  | ChatCreated chat
  | UserJoinedChat string string "string option"
  | UserLeftChat string string "string option"
  | MessageRead string string string
  | UserTyping string string "string option" bool
  | UserOffline string int

text \<open>A delivery: the socket that receives the event, and the event.\<close>

type_synonym delivery = "string \<times> server_event"

text \<open>
  The state: the four containers of the source, and the part of the socket.io server the
  handlers use: the connected sockets (\<open>io.emit\<close> reaches each of them) and the room
  membership as pairs (room, socket id) (\<open>socket.join\<close> adds a pair, \<open>io.to(room).emit\<close>
  reaches the sockets of the room, and a socket that disconnects leaves its rooms).
\<close>

record server =
  users :: "(string \<times> user) list"
  chats :: "(string \<times> chat) list"
  messages :: "(string \<times> message list) list"
  onlineUsers :: "string list"
  sockets :: "string list"
  rooms :: "(string \<times> string) list"

definition init :: server where
  "init = \<lparr>users = [], chats = [], messages = [], onlineUsers = [], sockets = [], rooms = []\<rparr>"

subsection \<open>Sets in insertion order\<close>

definition set_add :: "'a \<Rightarrow> 'a list \<Rightarrow> 'a list" where
  "set_add x xs = (if x \<in> set xs then xs else xs @ [x])"

definition set_delete :: "'a \<Rightarrow> 'a list \<Rightarrow> 'a list" where
  "set_delete x xs = removeAll x xs"

subsection \<open>The socket.io operations the handlers call\<close>

definition user_room :: "string \<Rightarrow> string" where
  "user_room userId = ''user_'' @ userId"

definition room_members :: "server \<Rightarrow> string \<Rightarrow> string list" where
  "room_members s room = map snd (filter (\<lambda>(r, sid). r = room) (rooms s))"

definition socket_join :: "string \<Rightarrow> string \<Rightarrow> server \<Rightarrow> server" where
  "socket_join sid room s = s\<lparr>rooms := set_add (room, sid) (rooms s)\<rparr>"

definition io_emit :: "server \<Rightarrow> server_event \<Rightarrow> delivery list" where
  "io_emit s ev = map (\<lambda>sid. (sid, ev)) (sockets s)"

definition io_to_emit :: "server \<Rightarrow> string \<Rightarrow> server_event \<Rightarrow> delivery list" where
  "io_to_emit s room ev = map (\<lambda>sid. (sid, ev)) (room_members s room)"

text \<open>\<open>xs.forEach(f)\<close> where every call emits: the deliveries of the calls, in order.\<close>

definition forEach :: "'a list \<Rightarrow> ('a \<Rightarrow> delivery list) \<Rightarrow> delivery list" where
  "forEach xs f = concat (map f xs)"

section \<open>The handlers\<close>

text \<open>\<open>io.on("connection")\<close>: a new socket is connected; it is in no room yet.\<close>

definition connection :: "string \<Rightarrow> server \<Rightarrow> server" where
  "connection sid s = s\<lparr>sockets := set_add sid (sockets s)\<rparr>"

definition user_online :: "int \<Rightarrow> string \<Rightarrow> user_data \<Rightarrow> server \<Rightarrow> server \<times> delivery list" where
  "user_online now sid userData s =
     (let usr = \<lparr>u_id = ud_userId userData, u_socketId = sid, u_username = ud_username userData,
                 u_displayName = ud_displayName userData, u_isOnline = True, u_lastSeen = now\<rparr>;
          s1 = s\<lparr>users := AList.update (ud_userId userData) usr (users s),
                 onlineUsers := set_add (ud_userId userData) (onlineUsers s)\<rparr>;
          out = io_emit s1 (UsersOnline (onlineUsers s1))
      in (socket_join sid (user_room (ud_userId userData)) s1, out))"

definition send_message :: "message \<Rightarrow> server \<Rightarrow> server \<times> delivery list" where
  "send_message messageData s =
     (let msgs1 = (if map_of (messages s) (m_chatId messageData) = None
                   then AList.update (m_chatId messageData) [] (messages s)
                   else messages s);
          msgs2 = (case map_of msgs1 (m_chatId messageData) of
                     Some log \<Rightarrow> AList.update (m_chatId messageData) (log @ [messageData]) msgs1
                   | None \<Rightarrow> msgs1);
          s1 = s\<lparr>messages := msgs2\<rparr>
      in (s1, case map_of (chats s1) (m_chatId messageData) of
                Some cht \<Rightarrow> forEach (c_participants cht)
                              (\<lambda>participantId. io_to_emit s1 (user_room participantId) (NewMessage messageData))
              | None \<Rightarrow> []))"

definition new_chat :: "int \<Rightarrow> chat_data \<Rightarrow> chat" where
  "new_chat now chatData =
     \<lparr>c_id = cd_id chatData, c_type = cd_type chatData, c_name = cd_name chatData,
      c_description = cd_description chatData, c_participants = cd_participants chatData,
      c_admins = (case cd_admins chatData of Some a \<Rightarrow> a | None \<Rightarrow> [cd_creatorId chatData]),
      c_owner = cd_creatorId chatData, c_createdAt = now\<rparr>"

definition create_chat :: "int \<Rightarrow> chat_data \<Rightarrow> server \<Rightarrow> server \<times> delivery list" where
  "create_chat now chatData s =
     (let newChat = new_chat now chatData;
          s1 = s\<lparr>chats := AList.update (cd_id chatData) newChat (chats s),
                 messages := AList.update (cd_id chatData) [] (messages s)\<rparr>
      in (s1, forEach (c_participants newChat)
                (\<lambda>participantId. io_to_emit s1 (user_room participantId) (ChatCreated newChat))))"

definition join_chat :: "string \<Rightarrow> string \<Rightarrow> server \<Rightarrow> server \<times> delivery list" where
  "join_chat chatId userId s =
     (case map_of (chats s) chatId of
        Some cht \<Rightarrow>
          if userId \<notin> set (c_participants cht) then
            (let cht1 = cht\<lparr>c_participants := c_participants cht @ [userId]\<rparr>;
                 s1 = s\<lparr>chats := AList.update chatId cht1 (chats s)\<rparr>
             in (s1, forEach (c_participants cht1)
                       (\<lambda>participantId. io_to_emit s1 (user_room participantId)
                          (UserJoinedChat chatId userId (map_option u_username (map_of (users s1) userId))))))
          else (s, [])
      | None \<Rightarrow> (s, []))"

definition leave_chat :: "string \<Rightarrow> string \<Rightarrow> server \<Rightarrow> server \<times> delivery list" where
  "leave_chat chatId userId s =
     (case map_of (chats s) chatId of
        Some cht \<Rightarrow>
          (let cht1 = cht\<lparr>c_participants := filter (\<lambda>p. p \<noteq> userId) (c_participants cht)\<rparr>;
               s1 = s\<lparr>chats := AList.update chatId cht1 (chats s)\<rparr>
           in (s1, forEach (c_participants cht1)
                     (\<lambda>participantId. io_to_emit s1 (user_room participantId)
                        (UserLeftChat chatId userId (map_option u_username (map_of (users s1) userId))))))
      | None \<Rightarrow> (s, []))"

text \<open>
  \<open>toLowerCase\<close> is the JavaScript built-in; the handler is modelled for any such function,
  which is its first argument. \<open>x.includes(y)\<close> holds when \<open>y\<close> occurs in \<open>x\<close> as a
  contiguous run of characters.
\<close>

fun includes_str :: "string \<Rightarrow> string \<Rightarrow> bool" where
  "includes_str [] ys = (ys = [])"
| "includes_str (x # xs) ys = (prefix ys (x # xs) \<or> includes_str xs ys)"

record search_result =
  r_id :: string
  r_username :: string
  r_displayName :: string
  r_isOnline :: bool

definition matches :: "(string \<Rightarrow> string) \<Rightarrow> string \<Rightarrow> user \<Rightarrow> bool" where
  "matches toLowerCase query usr =
     (includes_str (toLowerCase (u_username usr)) (toLowerCase query) \<or>
      includes_str (toLowerCase (u_displayName usr)) (toLowerCase query))"

definition to_result :: "server \<Rightarrow> user \<Rightarrow> search_result" where
  "to_result s usr =
     \<lparr>r_id = u_id usr, r_username = u_username usr, r_displayName = u_displayName usr,
      r_isOnline = (u_id usr \<in> set (onlineUsers s))\<rparr>"

definition search_users :: "(string \<Rightarrow> string) \<Rightarrow> server \<Rightarrow> string \<Rightarrow> search_result list" where
  "search_users toLowerCase s query =
     map (to_result s) (take 10 (filter (matches toLowerCase query) (map snd (users s))))"

definition get_messages :: "server \<Rightarrow> string \<Rightarrow> message list" where
  "get_messages s chatId = (case map_of (messages s) chatId of Some chatMessages \<Rightarrow> chatMessages | None \<Rightarrow> [])"

definition mark_as_read :: "string \<Rightarrow> string \<Rightarrow> string \<Rightarrow> server \<Rightarrow> server \<times> delivery list" where
  "mark_as_read chatId userId messageId s =
     (s, case map_of (chats s) chatId of
           Some cht \<Rightarrow> forEach (c_participants cht)
                         (\<lambda>participantId. if participantId \<noteq> userId
                            then io_to_emit s (user_room participantId) (MessageRead chatId messageId userId)
                            else [])
         | None \<Rightarrow> [])"

definition typing :: "string \<Rightarrow> string \<Rightarrow> bool \<Rightarrow> server \<Rightarrow> server \<times> delivery list" where
  "typing chatId userId isTyping s =
     (s, case map_of (chats s) chatId of
           Some cht \<Rightarrow> forEach (c_participants cht)
                         (\<lambda>participantId. if participantId \<noteq> userId
                            then io_to_emit s (user_room participantId)
                                   (UserTyping chatId userId (map_option u_username (map_of (users s) userId)) isTyping)
                            else [])
         | None \<Rightarrow> [])"

text \<open>
  \<open>disconnect\<close>: socket.io has already taken the closed socket out of its rooms and of the
  connected sockets when the handler runs. The loop over \<open>users.entries()\<close> stops at the
  first user whose socket id is the closed socket's, marks it offline in place and stamps its
  last-seen time. \<open>mark_offline\<close> returns that entry (if any) and the updated Map.
\<close>

fun mark_offline :: "string \<Rightarrow> int \<Rightarrow> (string \<times> user) list
    \<Rightarrow> (string \<times> user) option \<times> (string \<times> user) list" where
  "mark_offline sid now [] = (None, [])"
| "mark_offline sid now ((userId, usr) # rest) =
     (if u_socketId usr = sid
      then (let usr1 = usr\<lparr>u_isOnline := False, u_lastSeen := now\<rparr>
            in (Some (userId, usr1), (userId, usr1) # rest))
      else (case mark_offline sid now rest of (found, rest1) \<Rightarrow> (found, (userId, usr) # rest1)))"

definition disconnect :: "int \<Rightarrow> string \<Rightarrow> server \<Rightarrow> server \<times> delivery list" where
  "disconnect now sid s =
     (let s0 = s\<lparr>sockets := set_delete sid (sockets s),
                 rooms := filter (\<lambda>(r, sid'). sid' \<noteq> sid) (rooms s)\<rparr>
      in case mark_offline sid now (users s0) of
           (Some (userId, disconnectedUser), users1) \<Rightarrow>
             (let s1 = s0\<lparr>users := users1, onlineUsers := set_delete userId (onlineUsers s0)\<rparr>
              in (s1, io_emit s1 (UsersOnline (onlineUsers s1)) @
                      io_emit s1 (UserOffline (u_id disconnectedUser) (u_lastSeen disconnectedUser))))
         | (None, users1) \<Rightarrow> (s0, []))"

subsection \<open>The cleanup timer\<close>

definition timeout :: int where
  "timeout = 10 * 60 * 1000"

definition stale :: "int \<Rightarrow> user \<Rightarrow> bool" where
  "stale now usr = (\<not> u_isOnline usr \<and> now - u_lastSeen usr > timeout)"

text \<open>
  The two loops of the timer run over the entries of a Map and delete from that Map as they
  go; deleting the entry under the iterator does not disturb the iteration. The first argument
  is the entries still to visit, the last the Map (or Maps) being pruned.
\<close>

fun sweep_users :: "int \<Rightarrow> (string \<times> user) list \<Rightarrow> (string \<times> user) list \<Rightarrow> (string \<times> user) list" where
  "sweep_users now [] us = us"
| "sweep_users now ((userId, usr) # rest) us =
     (if stale now usr then sweep_users now rest (AList.delete userId us)
      else sweep_users now rest us)"

fun sweep_chats :: "(string \<times> chat) list \<Rightarrow> (string \<times> chat) list \<times> (string \<times> message list) list
    \<Rightarrow> (string \<times> chat) list \<times> (string \<times> message list) list" where
  "sweep_chats [] (cs, ms) = (cs, ms)"
| "sweep_chats ((chatId, cht) # rest) (cs, ms) =
     (if length (c_participants cht) = 0
      then sweep_chats rest (AList.delete chatId cs, AList.delete chatId ms)
      else sweep_chats rest (cs, ms))"

definition cleanup :: "int \<Rightarrow> server \<Rightarrow> server \<times> delivery list" where
  "cleanup now s =
     (let us = sweep_users now (users s) (users s);
          (cs, ms) = sweep_chats (chats s) (chats s, messages s)
      in (s\<lparr>users := us, chats := cs, messages := ms\<rparr>, []))"

subsection \<open>The server as a transition system\<close>

text \<open>
  The inbound events that change the state or emit, and the timer. The handlers run one at a
  time, each to its end, so a run of the server is a list of (clock, socket, event).
\<close>

datatype client_event =
    OnConnection
  | OnUserOnline user_data
  | OnSendMessage message
  | OnCreateChat chat_data
  | OnJoinChat string string
  | OnLeaveChat string string
  | OnMarkAsRead string string string
  | OnTyping string string bool
  | OnDisconnect
  | OnTimer

fun step :: "int \<Rightarrow> string \<Rightarrow> client_event \<Rightarrow> server \<Rightarrow> server \<times> delivery list" where
  "step now sid OnConnection s = (connection sid s, [])"
| "step now sid (OnUserOnline userData) s = user_online now sid userData s"
| "step now sid (OnSendMessage messageData) s = send_message messageData s"
| "step now sid (OnCreateChat chatData) s = create_chat now chatData s"
| "step now sid (OnJoinChat chatId userId) s = join_chat chatId userId s"
| "step now sid (OnLeaveChat chatId userId) s = leave_chat chatId userId s"
| "step now sid (OnMarkAsRead chatId userId messageId) s = mark_as_read chatId userId messageId s"
| "step now sid (OnTyping chatId userId isTyping) s = typing chatId userId isTyping s"
| "step now sid OnDisconnect s = disconnect now sid s"
| "step now sid OnTimer s = cleanup now s"

fun run :: "(int \<times> string \<times> client_event) list \<Rightarrow> server \<Rightarrow> server \<times> delivery list" where
  "run [] s = (s, [])"
| "run ((now, sid, ev) # rest) s =
     (case step now sid ev s of (s1, out1) \<Rightarrow>
        (case run rest s1 of (s2, out2) \<Rightarrow> (s2, out1 @ out2)))"

text \<open>The keys of a JavaScript Map are pairwise different.\<close>

definition wf :: "server \<Rightarrow> bool" where
  "wf s = (distinct (map fst (users s)) \<and> distinct (map fst (chats s)) \<and> distinct (map fst (messages s)))"

text \<open>Every user is stored under its own id (\<open>users.set(userData.userId, user)\<close>).\<close>

definition keys_are_ids :: "server \<Rightarrow> bool" where
  "keys_are_ids s = (\<forall>(userId, usr) \<in> set (users s). u_id usr = userId)"

text \<open>The participants of a chat, as the handlers read them (none for a chat that is not there).\<close>

definition participants_of :: "server \<Rightarrow> string \<Rightarrow> string list" where
  "participants_of s chatId = (case map_of (chats s) chatId of Some cht \<Rightarrow> c_participants cht | None \<Rightarrow> [])"

text \<open>Sequences of join and leave requests, and of sends.\<close>

datatype membership_op = Join string string | Leave string string

fun apply_ops :: "membership_op list \<Rightarrow> server \<Rightarrow> server" where
  "apply_ops [] s = s"
| "apply_ops (Join chatId userId # ops) s = apply_ops ops (fst (join_chat chatId userId s))"
| "apply_ops (Leave chatId userId # ops) s = apply_ops ops (fst (leave_chat chatId userId s))"

fun send_all :: "message list \<Rightarrow> server \<Rightarrow> server" where
  "send_all [] s = s"
| "send_all (m # ms) s = send_all ms (fst (send_message m s))"

text \<open>
  The messages a run sends to a chat, in the order of the run. Two events replace or discard
  the log of a chat: a create request for its id (\<open>messages.set(id, [])\<close>), and the timer
  when the chat is in the directory without participants (\<open>messages.delete(id)\<close>).
  \<open>discards_log\<close> says that the event does so in the state it meets, and \<open>keeps_log\<close> that
  no event of a run does.
\<close>

fun sent_to :: "string \<Rightarrow> (int \<times> string \<times> client_event) list \<Rightarrow> message list" where
  "sent_to chatId [] = []"
| "sent_to chatId ((now, sid, OnSendMessage m) # rest) =
     (if m_chatId m = chatId then m # sent_to chatId rest else sent_to chatId rest)"
| "sent_to chatId (e # rest) = sent_to chatId rest"

fun discards_log :: "string \<Rightarrow> client_event \<Rightarrow> server \<Rightarrow> bool" where
  "discards_log chatId (OnCreateChat chatData) s = (cd_id chatData = chatId)"
| "discards_log chatId OnTimer s =
     (case map_of (chats s) chatId of Some cht \<Rightarrow> c_participants cht = [] | None \<Rightarrow> False)"
| "discards_log chatId ev s = False"

fun keeps_log :: "string \<Rightarrow> (int \<times> string \<times> client_event) list \<Rightarrow> server \<Rightarrow> bool" where
  "keeps_log chatId [] s = True"
| "keeps_log chatId ((now, sid, ev) # rest) s =
     (\<not> discards_log chatId ev s \<and> keeps_log chatId rest (fst (step now sid ev s)))"

subsection \<open>A small scenario\<close>

text \<open>
  Two users, \<open>alice\<close> on socket \<open>sa\<close> and \<open>bob\<close> on socket \<open>sb\<close>, the group chat \<open>c1\<close> of
  both, and the message "hi" of \<open>alice\<close> to \<open>c1\<close>.
\<close>

definition alice :: user_data where
  "alice = \<lparr>ud_userId = ''alice'', ud_username = ''alice'', ud_displayName = ''Alice''\<rparr>"

definition bob :: user_data where
  "bob = \<lparr>ud_userId = ''bob'', ud_username = ''bob'', ud_displayName = ''Bob''\<rparr>"

definition c1_data :: chat_data where
  "c1_data = \<lparr>cd_id = ''c1'', cd_type = ''group'', cd_name = ''team'', cd_description = None,
              cd_participants = [''alice'', ''bob''], cd_admins = None, cd_creatorId = ''alice''\<rparr>"

definition hi :: message where
  "hi = \<lparr>m_id = ''m1'', m_chatId = ''c1'', m_senderId = ''alice'', m_senderUsername = ''alice'',
         m_content = ''hi'', m_readBy = []\<rparr>"

definition s_online :: server where
  "s_online = fst (run [(0, ''sa'', OnConnection), (0, ''sb'', OnConnection),
                        (1, ''sa'', OnUserOnline alice), (2, ''sb'', OnUserOnline bob)] init)"

definition s_chat :: server where
  "s_chat = fst (create_chat 3 c1_data s_online)"

text \<open>ASCII lower case, for running the search on examples.\<close>

definition ascii_lower :: "string \<Rightarrow> string" where
  "ascii_lower = map (\<lambda>c. if CHR ''A'' \<le> c \<and> c \<le> CHR ''Z'' then char_of (of_char c + (32::nat)) else c)"

text \<open>The message is in the log of \<open>c1\<close>.\<close>

definition s_sent :: server where
  "s_sent = fst (send_message hi s_chat)"

text \<open>\<open>alice\<close> comes online on socket \<open>s1\<close> and then on socket \<open>s2\<close>; both stay connected.\<close>

definition s_two_sockets :: server where
  "s_two_sockets = fst (run [(0, ''s1'', OnConnection), (0, ''s2'', OnConnection),
                             (1, ''s1'', OnUserOnline alice), (2, ''s2'', OnUserOnline alice)] init)"

text \<open>Create requests with no participant, and with the same participant twice.\<close>

definition c1_empty :: chat_data where
  "c1_empty = c1_data\<lparr>cd_participants := []\<rparr>"

definition c1_twice :: chat_data where
  "c1_twice = c1_data\<lparr>cd_participants := [''alice'', ''alice'']\<rparr>"

text \<open>
  A state for the timer: \<open>alice\<close> and \<open>bob\<close> online, the chat \<open>c1\<close> of both with one message,
  a chat \<open>c2\<close> without participants with one message, and \<open>bob\<close> disconnected at time 5.
\<close>

definition c2_data :: chat_data where
  "c2_data = \<lparr>cd_id = ''c2'', cd_type = ''group'', cd_name = ''void'', cd_description = None,
              cd_participants = [], cd_admins = None, cd_creatorId = ''alice''\<rparr>"

definition s_idle :: server where
  "s_idle = fst (run [(0, ''sa'', OnConnection), (0, ''sb'', OnConnection),
                      (1, ''sa'', OnUserOnline alice), (2, ''sb'', OnUserOnline bob),
                      (3, ''sa'', OnCreateChat c1_data), (3, ''sa'', OnCreateChat c2_data),
                      (4, ''sa'', OnSendMessage hi), (4, ''sa'', OnSendMessage (hi\<lparr>m_chatId := ''c2''\<rparr>)),
                      (5, ''sb'', OnDisconnect)] init)"

text \<open>Three users of the same names, registered in the order \<open>u2\<close>, \<open>u3\<close>, \<open>u1\<close>.\<close>

definition s_three :: server where
  "s_three = fst (run [(0, ''s2'', OnConnection), (0, ''s3'', OnConnection), (0, ''s1'', OnConnection),
     (1, ''s2'', OnUserOnline \<lparr>ud_userId = ''u2'', ud_username = ''bob'', ud_displayName = ''Bob''\<rparr>),
     (2, ''s3'', OnUserOnline \<lparr>ud_userId = ''u3'', ud_username = ''bob'', ud_displayName = ''Bob''\<rparr>),
     (3, ''s1'', OnUserOnline \<lparr>ud_userId = ''u1'', ud_username = ''bob'', ud_displayName = ''Bob''\<rparr>)] init)"

text \<open>
  \<open>u1\<close> and \<open>u2\<close> come online in this order; \<open>u1\<close> disconnects, the timer removes it, and
  it comes online again.
\<close>

definition s_back :: server where
  "s_back = fst (run [(0, ''s1'', OnConnection), (0, ''s2'', OnConnection),
     (1, ''s1'', OnUserOnline \<lparr>ud_userId = ''u1'', ud_username = ''bob'', ud_displayName = ''Bob''\<rparr>),
     (2, ''s2'', OnUserOnline \<lparr>ud_userId = ''u2'', ud_username = ''bob'', ud_displayName = ''Bob''\<rparr>),
     (3, ''s1'', OnDisconnect), (700000, ''s1'', OnTimer), (700001, ''s3'', OnConnection),
     (700002, ''s3'', OnUserOnline \<lparr>ud_userId = ''u1'', ud_username = ''bob'', ud_displayName = ''Bob''\<rparr>)]
     init)"

section \<open>Lemmas about the containers, the rooms and the handlers\<close>

subsection \<open>Message log, membership, and the two sweeps\<close>

lemma rooms_send [simp]: "rooms (fst (send_message m s)) = rooms s"
  by (simp add: send_message_def Let_def)

lemma chats_send [simp]: "chats (fst (send_message m s)) = chats s"
  by (simp add: send_message_def Let_def)

lemma users_send [simp]: "users (fst (send_message m s)) = users s"
  by (simp add: send_message_def Let_def)

lemma messages_send:
  "map_of (messages (fst (send_message m s))) =
     (map_of (messages s))(m_chatId m \<mapsto> get_messages s (m_chatId m) @ [m])"
  by (cases "map_of (messages s) (m_chatId m)")
     (simp_all add: send_message_def Let_def get_messages_def AList.update_conv')

lemma get_messages_send:
  "get_messages (fst (send_message m s)) c =
     (if m_chatId m = c then get_messages s c @ [m] else get_messages s c)"
  by (simp add: get_messages_def messages_send)

lemma get_messages_send_all:
  "get_messages (send_all ms s) c = get_messages s c @ filter (\<lambda>m. m_chatId m = c) ms"
  by (induction ms arbitrary: s) (simp_all add: get_messages_send)

lemma participants_join:
  "participants_of (fst (join_chat c u s)) c' =
     (if c' = c \<and> map_of (chats s) c \<noteq> None \<and> u \<notin> set (participants_of s c)
      then participants_of s c @ [u] else participants_of s c')"
  by (cases "map_of (chats s) c")
     (auto simp: join_chat_def participants_of_def Let_def AList.update_conv')

lemma participants_leave:
  "participants_of (fst (leave_chat c u s)) c' =
     (if c' = c then filter (\<lambda>p. p \<noteq> u) (participants_of s c) else participants_of s c')"
  by (cases "map_of (chats s) c")
     (auto simp: leave_chat_def participants_of_def Let_def AList.update_conv')

lemma filter_neq_id: "u \<notin> set xs \<Longrightarrow> filter (\<lambda>p. p \<noteq> u) xs = xs"
  by (induction xs) auto

lemma distinct_join: "distinct (participants_of s c') \<Longrightarrow> distinct (participants_of (fst (join_chat c u s)) c')"
  by (auto simp: participants_join)

lemma distinct_leave: "distinct (participants_of s c') \<Longrightarrow> distinct (participants_of (fst (leave_chat c u s)) c')"
  by (auto simp: participants_leave)

lemma distinct_apply_ops:
  "distinct (participants_of s c) \<Longrightarrow> distinct (participants_of (apply_ops ops s) c)"
proof (induction ops s rule: apply_ops.induct)
  case (1 s)
  then show ?case by simp
next
  case (2 chatId userId ops s)
  then show ?case by (simp add: distinct_join)
next
  case (3 chatId userId ops s)
  then show ?case by (simp add: distinct_leave)
qed

lemma leave_non_member:
  "u \<notin> set (participants_of s c) \<Longrightarrow> fst (leave_chat c u s) = s"
  by (cases "map_of (chats s) c")
     (auto simp: leave_chat_def participants_of_def Let_def AList.update_triv filter_neq_id)

lemma join_no_change:
  "map_of (chats s) c = None \<or> u \<in> set (participants_of s c) \<Longrightarrow> join_chat c u s = (s, [])"
  by (cases "map_of (chats s) c")
     (auto simp: join_chat_def participants_of_def Let_def)

lemma sweep_users_gen:
  "sweep_users now es us =
     filter (\<lambda>(k, u). k \<notin> set (map fst (filter (\<lambda>(k, u). stale now u) es))) us"
proof (induction now es us rule: sweep_users.induct)
  case (1 now us)
  then show ?case by simp
next
  case (2 now userId usr rest us)
  then show ?case
    by (auto simp: AList.delete_eq intro!: filter_cong)
qed

lemma sweep_users_filter:
  assumes "distinct (map fst us)"
  shows "sweep_users now us us = filter (\<lambda>(k, u). \<not> stale now u) us"
  unfolding sweep_users_gen
  using assms by (force intro!: filter_cong dest: eq_key_imp_eq_value)

lemma sweep_chats_gen:
  "sweep_chats es (cs, ms) =
     (filter (\<lambda>(k, c). k \<notin> set (map fst (filter (\<lambda>(k, c). c_participants c = []) es))) cs,
      filter (\<lambda>(k, l). k \<notin> set (map fst (filter (\<lambda>(k, c). c_participants c = []) es))) ms)"
proof (induction es "(cs, ms)" arbitrary: cs ms rule: sweep_chats.induct)
  case (1 cs ms)
  then show ?case by simp
next
  case (2 chatId cht rest cs ms)
  then show ?case
    by (auto simp: AList.delete_eq intro!: filter_cong)
qed

lemma orphan_keys:
  assumes "distinct (map fst cs)"
  shows "k \<in> set (map fst (filter (\<lambda>(k, c). c_participants c = []) cs))
         \<longleftrightarrow> (\<exists>c. map_of cs k = Some c \<and> c_participants c = [])"
  using assms by (force simp: map_of_eq_Some_iff)

lemma sweep_chats_filter:
  assumes "distinct (map fst cs)"
  shows "sweep_chats cs (cs, ms) =
     (filter (\<lambda>(k, c). c_participants c \<noteq> []) cs,
      filter (\<lambda>(k, l). \<not> (\<exists>c. map_of cs k = Some c \<and> c_participants c = [])) ms)"
  unfolding sweep_chats_gen using assms
  by (auto simp: orphan_keys[OF assms, simplified] intro!: filter_cong dest: eq_key_imp_eq_value)

subsection \<open>Search, rooms and deliveries\<close>

lemma includes_str_iff: "includes_str xs ys \<longleftrightarrow> sublist ys xs"
  by (induction xs) (simp_all add: sublist_Cons_right)

lemma matches_iff:
  "matches lower q u \<longleftrightarrow>
     sublist (lower q) (lower (u_username u)) \<or> sublist (lower q) (lower (u_displayName u))"
  by (simp add: matches_def includes_str_iff)

lemma set_forEach: "set (forEach xs f) = (\<Union>x\<in>set xs. set (f x))"
  by (simp add: forEach_def)

lemma set_io_to_emit: "set (io_to_emit s room ev) = (\<lambda>sock. (sock, ev)) ` set (room_members s room)"
  by (simp add: io_to_emit_def)

lemma room_members_messages [simp]: "room_members (s\<lparr>messages := x\<rparr>) r = room_members s r"
  by (simp add: room_members_def)

lemma room_members_chats [simp]: "room_members (s\<lparr>chats := x\<rparr>) r = room_members s r"
  by (simp add: room_members_def)

lemma send_message_out:
  "snd (send_message m s) =
     (case map_of (chats s) (m_chatId m) of
        Some cht \<Rightarrow> forEach (c_participants cht) (\<lambda>p. io_to_emit s (user_room p) (NewMessage m))
      | None \<Rightarrow> [])"
  by (simp add: send_message_def Let_def io_to_emit_def split: option.splits)

lemma send_message_set:
  assumes "map_of (chats s) (m_chatId m) = Some cht"
  shows "set (snd (send_message m s)) =
     {(sock, NewMessage m) | sock p. p \<in> set (c_participants cht) \<and> sock \<in> set (room_members s (user_room p))}"
  using assms by (auto simp: send_message_out set_forEach set_io_to_emit)

lemma mark_as_read_set:
  assumes "map_of (chats s) chatId = Some cht"
  shows "set (snd (mark_as_read chatId userId messageId s)) =
     {(sock, MessageRead chatId messageId userId) | sock p.
        p \<in> set (c_participants cht) \<and> p \<noteq> userId \<and> sock \<in> set (room_members s (user_room p))}"
  using assms by (auto simp: mark_as_read_def set_forEach set_io_to_emit split: if_splits)

lemma in_room_members: "sid \<in> set (room_members s r) \<longleftrightarrow> (r, sid) \<in> set (rooms s)"
  by (force simp: room_members_def)

lemma room_members_join:
  "set (room_members (socket_join sid room s) r) =
     (if r = room then insert sid (set (room_members s r)) else set (room_members s r))"
proof -
  have "rooms (socket_join sid room s) = set_add (room, sid) (rooms s)"
    by (simp add: socket_join_def)
  then have "\<And>x. x \<in> set (room_members (socket_join sid room s) r)
       \<longleftrightarrow> (r, x) = (room, sid) \<or> x \<in> set (room_members s r)"
    by (auto simp: in_room_members set_add_def)
  then show ?thesis by auto
qed

lemma room_members_users_online [simp]:
  "room_members (s\<lparr>users := x, onlineUsers := y\<rparr>) r = room_members s r"
  by (simp add: room_members_def)

lemma room_members_user_online:
  "set (room_members (fst (user_online now sid d s)) r) =
     (if r = user_room (ud_userId d) then insert sid (set (room_members s r)) else set (room_members s r))"
  by (simp add: user_online_def Let_def room_members_join)

lemma users_user_online:
  "map_of (users (fst (user_online now sid d s))) (ud_userId d) =
     Some \<lparr>u_id = ud_userId d, u_socketId = sid, u_username = ud_username d,
           u_displayName = ud_displayName d, u_isOnline = True, u_lastSeen = now\<rparr>"
  by (simp add: user_online_def Let_def socket_join_def AList.update_conv')

lemma chats_create:
  "map_of (chats (fst (create_chat now d s))) = (map_of (chats s))(cd_id d \<mapsto> new_chat now d)"
  by (simp add: create_chat_def Let_def AList.update_conv')

lemma messages_create:
  "map_of (messages (fst (create_chat now d s))) = (map_of (messages s))(cd_id d \<mapsto> [])"
  by (simp add: create_chat_def Let_def AList.update_conv')

lemma get_messages_create:
  "get_messages (fst (create_chat now d s)) c = (if c = cd_id d then [] else get_messages s c)"
  by (simp add: get_messages_def messages_create)

lemma search_users_char:
  "search_users lower s q =
     map (to_result s) (take 10 (filter (\<lambda>u. sublist (lower q) (lower (u_username u)) \<or>
                                             sublist (lower q) (lower (u_displayName u)))
                                        (map snd (users s))))"
  by (simp add: search_users_def matches_iff[abs_def])

lemma search_users_subseq:
  "subseq (map r_id (search_users lower s q)) (map (\<lambda>(k, u). u_id u) (users s))"
proof -
  have "subseq (take 10 (filter (matches lower q) (map snd (users s)))) (map snd (users s))"
    by (metis append_take_drop_id list_emb_prefix subseq_filter_left subseq_order.order_trans subseq_order.order_refl)
  then have "subseq (map u_id (take 10 (filter (matches lower q) (map snd (users s)))))
                    (map u_id (map snd (users s)))"
    by (rule subseq_map)
  then show ?thesis
    by (simp add: search_users_def to_result_def comp_def split_def)
qed


subsection \<open>Frames, the key invariant and runs\<close>

lemma connection_frames [simp]:
  "users (connection sid s) = users s" "chats (connection sid s) = chats s"
  "messages (connection sid s) = messages s"
  by (simp_all add: connection_def)

lemma user_online_frames [simp]:
  "chats (fst (user_online now sid d s)) = chats s"
  "messages (fst (user_online now sid d s)) = messages s"
  by (simp_all add: user_online_def Let_def socket_join_def)

lemma join_messages [simp]: "messages (fst (join_chat c u s)) = messages s"
  by (simp add: join_chat_def Let_def split: option.splits)

lemma leave_messages [simp]: "messages (fst (leave_chat c u s)) = messages s"
  by (simp add: leave_chat_def Let_def split: option.splits)

lemma join_users [simp]: "users (fst (join_chat c u s)) = users s"
  by (simp add: join_chat_def Let_def split: option.splits)

lemma leave_users [simp]: "users (fst (leave_chat c u s)) = users s"
  by (simp add: leave_chat_def Let_def split: option.splits)

lemma mark_as_read_state [simp]: "fst (mark_as_read c u m s) = s"
  by (simp add: mark_as_read_def)

lemma typing_state [simp]: "fst (typing c u b s) = s"
  by (simp add: typing_def)

lemma disconnect_frames [simp]:
  "chats (fst (disconnect now sid s)) = chats s"
  "messages (fst (disconnect now sid s)) = messages s"
  by (simp_all add: disconnect_def Let_def split: prod.splits option.splits)

lemma mark_offline_keys: "map fst (snd (mark_offline sid now us)) = map fst us"
  by (induction sid now us rule: mark_offline.induct) (auto simp: Let_def split: prod.splits)

lemma disconnect_user_keys: "map fst (users (fst (disconnect now sid s))) = map fst (users s)"
proof -
  have "map fst (snd (mark_offline sid now (users s))) = map fst (users s)"
    by (rule mark_offline_keys)
  then show ?thesis
    by (auto simp: disconnect_def Let_def split: prod.splits option.splits)
qed

lemma create_users [simp]: "users (fst (create_chat now d s)) = users s"
  by (simp add: create_chat_def Let_def)

lemma update_keys_present: "map_of al k = Some v \<Longrightarrow> map fst (AList.update k v' al) = map fst al"
  by (induction al) (auto split: if_splits)

lemma join_chat_keys: "map fst (chats (fst (join_chat c u s))) = map fst (chats s)"
  by (auto simp: join_chat_def Let_def update_keys_present split: option.splits)

lemma leave_chat_keys: "map fst (chats (fst (leave_chat c u s))) = map fst (chats s)"
  by (auto simp: leave_chat_def Let_def update_keys_present split: option.splits)

lemma create_chat_keys:
  "map_of (chats s) (cd_id d) = Some old \<Longrightarrow>
     map fst (chats (fst (create_chat now d s))) = map fst (chats s)"
  by (simp add: create_chat_def Let_def update_keys_present)

lemma fst_run_Cons: "fst (run ((now, sid, ev) # tr) s) = fst (run tr (fst (step now sid ev s)))"
  by (auto split: prod.splits)


lemma wf_init: "wf init"
  by (simp add: wf_def init_def)

lemma messages_send_distinct:
  "distinct (map fst (messages s)) \<Longrightarrow> distinct (map fst (messages (fst (send_message m s))))"
  by (simp add: send_message_def Let_def AList.distinct_update split: option.splits)

lemma cleanup_state:
  "fst (cleanup now s) =
     s\<lparr>users := sweep_users now (users s) (users s),
       chats := fst (sweep_chats (chats s) (chats s, messages s)),
       messages := snd (sweep_chats (chats s) (chats s, messages s))\<rparr>"
  by (simp add: cleanup_def Let_def split: prod.splits)

lemma wf_step:
  assumes "wf s"
  shows "wf (fst (step now sid ev s))"
proof (cases ev)
  case OnConnection
  then show ?thesis using assms by (simp add: wf_def)
next
  case (OnUserOnline d)
  then show ?thesis using assms
    by (simp add: wf_def user_online_def Let_def socket_join_def AList.distinct_update)
next
  case (OnSendMessage m)
  then show ?thesis using assms by (simp add: wf_def messages_send_distinct)
next
  case (OnCreateChat d)
  then show ?thesis using assms
    by (simp add: wf_def create_chat_def Let_def AList.distinct_update)
next
  case (OnJoinChat c u)
  then show ?thesis using assms by (simp add: wf_def join_chat_keys)
next
  case (OnLeaveChat c u)
  then show ?thesis using assms by (simp add: wf_def leave_chat_keys)
next
  case (OnMarkAsRead c u m)
  then show ?thesis using assms by simp
next
  case (OnTyping c u b)
  then show ?thesis using assms by simp
next
  case OnDisconnect
  then show ?thesis using assms by (simp add: wf_def disconnect_user_keys)
next
  case OnTimer
  then show ?thesis using assms
    by (simp add: wf_def cleanup_state sweep_users_gen sweep_chats_gen distinct_map_filter)
qed

lemma wf_run: "wf s \<Longrightarrow> wf (fst (run tr s))"
proof (induction tr arbitrary: s)
  case Nil
  then show ?case by simp
next
  case (Cons e tr)
  obtain now sid ev where e: "e = (now, sid, ev)" by (cases e) auto
  have "wf (fst (step now sid ev s))" using Cons.prems by (rule wf_step)
  then have "wf (fst (run tr (fst (step now sid ev s))))" by (rule Cons.IH)
  then show ?case by (simp only: e fst_run_Cons)
qed

lemma map_of_filter_keys:
  "map_of (filter (\<lambda>(k, v). k \<notin> K) al) c = (if c \<in> K then None else map_of al c)"
  by (induction al) auto

lemma get_messages_cleanup:
  assumes "wf s"
  shows "get_messages (fst (cleanup now s)) c =
           (if discards_log c OnTimer s then [] else get_messages s c)"
proof -
  have dc: "distinct (map fst (chats s))" using assms by (simp add: wf_def)
  have "map_of (messages (fst (cleanup now s))) c =
          (if c \<in> set (map fst (filter (\<lambda>(k, c). c_participants c = []) (chats s)))
           then None else map_of (messages s) c)"
    by (simp add: cleanup_state sweep_chats_gen map_of_filter_keys)
  moreover have "c \<in> set (map fst (filter (\<lambda>(k, c). c_participants c = []) (chats s)))
      \<longleftrightarrow> discards_log c OnTimer s"
    using orphan_keys[OF dc, of c] by (auto split: option.splits)
  ultimately show ?thesis by (simp add: get_messages_def)
qed

lemma get_messages_step:
  assumes "wf s"
  shows "get_messages (fst (step now sid ev s)) c =
           (if discards_log c ev s then [] else get_messages s c @ sent_to c [(now, sid, ev)])"
proof (cases ev)
  case OnTimer
  then show ?thesis using get_messages_cleanup[OF assms] by simp
next
  case (OnSendMessage m)
  then show ?thesis by (simp add: get_messages_send)
next
  case (OnCreateChat d)
  then show ?thesis by (auto simp: get_messages_create)
qed (simp_all add: get_messages_def)

lemma sent_to_Cons: "sent_to c (e # tr) = sent_to c [e] @ sent_to c tr"
proof -
  obtain now sid ev where e: "e = (now, sid, ev)" by (cases e) auto
  show ?thesis unfolding e by (cases ev) simp_all
qed

lemma sent_to_append: "sent_to c (tr1 @ tr2) = sent_to c tr1 @ sent_to c tr2"
proof (induction tr1)
  case Nil
  then show ?case by simp
next
  case (Cons e tr1)
  then show ?case
    using sent_to_Cons[of c e "tr1 @ tr2"] sent_to_Cons[of c e tr1] by simp
qed

lemma get_messages_run:
  assumes "wf s" and "keeps_log c tr s"
  shows "get_messages (fst (run tr s)) c = get_messages s c @ sent_to c tr"
  using assms
proof (induction tr arbitrary: s)
  case Nil
  then show ?case by simp
next
  case (Cons e tr)
  obtain now sid ev where e: "e = (now, sid, ev)" by (cases e) auto
  have k: "\<not> discards_log c ev s" "keeps_log c tr (fst (step now sid ev s))"
    using Cons.prems(2) by (simp_all add: e)
  have w: "wf (fst (step now sid ev s))"
    using Cons.prems(1) by (rule wf_step)
  have 1: "get_messages (fst (step now sid ev s)) c = get_messages s c @ sent_to c [e]"
    using get_messages_step[OF Cons.prems(1), of now sid ev c] k(1) by (simp add: e)
  have 2: "get_messages (fst (run tr (fst (step now sid ev s)))) c
           = get_messages (fst (step now sid ev s)) c @ sent_to c tr"
    using w k(2) by (rule Cons.IH)
  show ?case
    using 1 2 sent_to_Cons[of c e tr] by (simp add: e fst_run_Cons del: run.simps)
qed

lemma fst_run_append: "fst (run (tr1 @ tr2) s) = fst (run tr2 (fst (run tr1 s)))"
proof (induction tr1 arbitrary: s)
  case Nil
  then show ?case by simp
next
  case (Cons e tr1)
  obtain now sid ev where e: "e = (now, sid, ev)" by (cases e) auto
  show ?case using Cons.IH by (simp add: e fst_run_Cons del: run.simps)
qed

lemma get_messages_since_discard:
  assumes "wf s" and "discards_log c ev (fst (run tr1 s))"
    and "keeps_log c tr2 (fst (step now sid ev (fst (run tr1 s))))"
  shows "get_messages (fst (run (tr1 @ (now, sid, ev) # tr2) s)) c = sent_to c tr2"
proof -
  let ?s1 = "fst (run tr1 s)"
  let ?s2 = "fst (step now sid ev ?s1)"
  have w1: "wf ?s1" using assms(1) by (rule wf_run)
  have w2: "wf ?s2" using w1 by (rule wf_step)
  have "get_messages ?s2 c = []"
    using get_messages_step[OF w1, of now sid ev c] assms(2) by simp
  then have "get_messages (fst (run tr2 ?s2)) c = sent_to c tr2"
    using get_messages_run[OF w2 assms(3)] by simp
  then show ?thesis
    by (simp add: fst_run_append fst_run_Cons del: run.simps)
qed

lemma users_keys_user_online:
  "map fst (users (fst (user_online now sid d s))) =
     (if ud_userId d \<in> set (map fst (users s)) then map fst (users s)
      else map fst (users s) @ [ud_userId d])"
  by (simp add: user_online_def Let_def socket_join_def AList.update_keys)

lemma users_keys_step:
  assumes "\<forall>d. ev \<noteq> OnUserOnline d"
  shows "subseq (map fst (users (fst (step now sid ev s)))) (map fst (users s))"
proof (cases ev)
  case OnTimer
  have "subseq (users (fst (cleanup now s))) (users s)"
    by (simp add: cleanup_state sweep_users_gen)
  then show ?thesis using OnTimer by (simp add: subseq_map)
next
  case OnDisconnect
  then show ?thesis by (simp add: disconnect_user_keys)
next
  case (OnUserOnline d)
  then show ?thesis using assms by simp
qed simp_all

lemma users_keys_step_eq:
  assumes "\<forall>d. ev \<noteq> OnUserOnline d" and "ev \<noteq> OnTimer"
  shows "map fst (users (fst (step now sid ev s))) = map fst (users s)"
  using assms by (cases ev) (simp_all add: disconnect_user_keys)

lemma set_update_subset: "set (AList.update k v al) \<subseteq> insert (k, v) (set al)"
  by (induction al) auto

lemma mark_offline_ids:
  "\<forall>(k, u) \<in> set us. u_id u = k \<Longrightarrow> \<forall>(k, u) \<in> set (snd (mark_offline sid now us)). u_id u = k"
  by (induction sid now us rule: mark_offline.induct) (auto simp: Let_def split: prod.splits)

lemma mark_offline_None:
  "fst (mark_offline sid now us) = None \<Longrightarrow> snd (mark_offline sid now us) = us"
  by (induction sid now us rule: mark_offline.induct) (auto simp: Let_def split: prod.splits if_splits)

lemma users_disconnect:
  "users (fst (disconnect now sid s)) = snd (mark_offline sid now (users s))"
  using mark_offline_None[of sid now "users s"]
  by (auto simp: disconnect_def Let_def split: prod.splits option.splits)

lemma keys_are_ids_init: "keys_are_ids init"
  by (simp add: keys_are_ids_def init_def)

lemma keys_are_ids_step:
  assumes "keys_are_ids s"
  shows "keys_are_ids (fst (step now sid ev s))"
proof (cases ev)
  case (OnUserOnline d)
  then show ?thesis using assms set_update_subset[of "ud_userId d" _ "users s"]
    by (fastforce simp: keys_are_ids_def user_online_def Let_def socket_join_def)
next
  case OnDisconnect
  then show ?thesis using assms mark_offline_ids[of "users s" sid now]
    by (simp add: keys_are_ids_def users_disconnect)
next
  case OnTimer
  then show ?thesis using assms
    by (auto simp: keys_are_ids_def cleanup_state sweep_users_gen)
qed (use assms in \<open>simp_all add: keys_are_ids_def\<close>)

lemma keys_are_ids_run: "keys_are_ids s \<Longrightarrow> keys_are_ids (fst (run tr s))"
proof (induction tr arbitrary: s)
  case Nil
  then show ?case by simp
next
  case (Cons e tr)
  obtain now sid ev where e: "e = (now, sid, ev)" by (cases e) auto
  have "keys_are_ids (fst (step now sid ev s))" using Cons.prems by (rule keys_are_ids_step)
  then have "keys_are_ids (fst (run tr (fst (step now sid ev s))))" by (rule Cons.IH)
  then show ?case by (simp only: e fst_run_Cons)
qed

lemma keys_are_ids_map: "keys_are_ids s \<Longrightarrow> map (\<lambda>(userId, usr). u_id usr) (users s) = map fst (users s)"
  by (auto simp: keys_are_ids_def)

lemma rooms_create [simp]: "rooms (fst (create_chat now d s)) = rooms s"
  by (simp add: create_chat_def Let_def)

lemma rooms_join [simp]: "rooms (fst (join_chat c u s)) = rooms s"
  by (simp add: join_chat_def Let_def split: option.splits)

lemma rooms_leave [simp]: "rooms (fst (leave_chat c u s)) = rooms s"
  by (simp add: leave_chat_def Let_def split: option.splits)

lemma rooms_cleanup [simp]: "rooms (fst (cleanup now s)) = rooms s"
  by (simp add: cleanup_state)

lemma rooms_user_online:
  "set (rooms (fst (user_online now sid d s))) = insert (user_room (ud_userId d), sid) (set (rooms s))"
  by (auto simp: user_online_def Let_def socket_join_def set_add_def)

lemma rooms_disconnect:
  "rooms (fst (disconnect now sid s)) = filter (\<lambda>(r, sid'). sid' \<noteq> sid) (rooms s)"
  by (simp add: disconnect_def Let_def split: prod.splits option.splits)

lemma rooms_step:
  assumes "(r, x) \<in> set (rooms s)" and "\<not> (sid = x \<and> ev = OnDisconnect)"
  shows "(r, x) \<in> set (rooms (fst (step now sid ev s)))"
  using assms by (cases ev) (auto simp: connection_def rooms_user_online rooms_disconnect)

lemma rooms_run:
  assumes "(r, x) \<in> set (rooms s)"
    and "\<forall>e \<in> set tr. \<not> (fst (snd e) = x \<and> snd (snd e) = OnDisconnect)"
  shows "(r, x) \<in> set (rooms (fst (run tr s)))"
  using assms
proof (induction tr arbitrary: s)
  case Nil
  then show ?case by simp
next
  case (Cons e tr)
  obtain now sid ev where e: "e = (now, sid, ev)" by (cases e) auto
  have "(r, x) \<in> set (rooms (fst (step now sid ev s)))"
    using Cons.prems by (intro rooms_step) (auto simp: e)
  then have "(r, x) \<in> set (rooms (fst (run tr (fst (step now sid ev s)))))"
    using Cons.prems by (intro Cons.IH) auto
  then show ?case by (simp only: e fst_run_Cons)
qed

lemma timeout_val: "timeout = 600000"
  by (simp add: timeout_def)

section \<open>The claims\<close>

subsection \<open>Creating a chat\<close>

text \<open>
  A create request is never refused. In the empty state, a request for \<open>c1\<close> without
  participants stores the chat and creates its log. In a state that holds the chat \<open>c1\<close>
  (created at time 3, with one message), a second request for \<open>c1\<close> at time 9 is stored as
  well and the log is empty again.
\<close>

theorem create_chat_invalid_request_counterexample:
  "cd_id c1_empty = ''c1'' \<and> cd_participants c1_empty = []
   \<and> map_of (chats init) ''c1'' = None
   \<and> map_option c_participants (map_of (chats (fst (create_chat 3 c1_empty init))) ''c1'') = Some []
   \<and> map_of (messages (fst (create_chat 3 c1_empty init))) ''c1'' = Some []
   \<and> cd_id c1_data = ''c1''
   \<and> map_option c_createdAt (map_of (chats s_sent) ''c1'') = Some 3
   \<and> map_of (messages s_sent) ''c1'' = Some [hi]
   \<and> map_option c_createdAt (map_of (chats (fst (create_chat 9 c1_data s_sent))) ''c1'') = Some 9
   \<and> map_of (messages (fst (create_chat 9 c1_data s_sent))) ''c1'' = Some []"
  by code_simp

text \<open>
  Claim C1, as the code has it. The specification lets \<open>CreateChat\<close> fail with
  \<open>InvalidChat\<close> when the id is taken or the participant list is empty, and store nothing.
  The handler has no such check and no error result: for every request, those two kinds
  included, it stores the chat built from the request under the request's id (with the
  request's participant list, empty or not) and sets the log of that id to the empty log.
\<close>

theorem create_chat_never_rejects:
  "map_of (chats (fst (create_chat now d s))) (cd_id d) = Some (new_chat now d)
   \<and> c_participants (new_chat now d) = cd_participants d
   \<and> map_of (messages (fst (create_chat now d s))) (cd_id d) = Some []"
  by (simp add: chats_create messages_create new_chat_def)

subsection \<open>Fan-out of a new message\<close>

text \<open>
  The scenario of the specification: \<open>alice\<close> (socket \<open>sa\<close>) and \<open>bob\<close> (socket \<open>sb\<close>)
  are the participants of \<open>c1\<close>, and \<open>alice\<close> sends "hi". Both sockets receive
  \<open>new-message\<close>, the sender's first.
\<close>

theorem sender_receives_own_message_counterexample:
  "map_of (chats s_chat) (m_chatId hi) = Some (new_chat 3 c1_data)
   \<and> m_senderId hi = ''alice''
   \<and> room_members s_chat (user_room ''alice'') = [''sa'']
   \<and> snd (send_message hi s_chat) = [(''sa'', NewMessage hi), (''sb'', NewMessage hi)]"
  by code_simp

text \<open>
  Claim C2, as the code has it. The specification excludes the sender from the fan-out of
  \<open>new-message\<close>. The handler emits with \<open>io.to(room)\<close> to the personal room of every
  participant and skips nobody: for a chat that exists, the sockets that receive the event
  are exactly the sockets in the rooms of the chat's participants, each with the message as
  sent; when the sender is a participant, every socket in the sender's room is among them.
\<close>

theorem send_message_reaches_sender_too:
  assumes "map_of (chats s) (m_chatId m) = Some cht"
  shows "set (snd (send_message m s)) =
           {(sock, NewMessage m) | sock p.
              p \<in> set (c_participants cht) \<and> sock \<in> set (room_members s (user_room p))}
         \<and> (m_senderId m \<in> set (c_participants cht) \<longrightarrow>
              (\<forall>sock \<in> set (room_members s (user_room (m_senderId m))).
                 (sock, NewMessage m) \<in> set (snd (send_message m s))))"
  using send_message_set[OF assms] by auto

text \<open>
  In the scenario, the chat exists, the sender is a participant, her socket is in her room,
  and it receives her own message.
\<close>

theorem send_message_reaches_sender_too_witness:
  "map_of (chats s_chat) (m_chatId hi) = Some (new_chat 3 c1_data)
   \<and> m_senderId hi \<in> set (c_participants (new_chat 3 c1_data))
   \<and> ''sa'' \<in> set (room_members s_chat (user_room (m_senderId hi)))
   \<and> (''sa'', NewMessage hi) \<in> set (snd (send_message hi s_chat))"
proof -
  have h: "map_of (chats s_chat) (m_chatId hi) = Some (new_chat 3 c1_data)"
    by code_simp
  have p: "m_senderId hi \<in> set (c_participants (new_chat 3 c1_data))"
    by code_simp
  have r: "''sa'' \<in> set (room_members s_chat (user_room (m_senderId hi)))"
    by code_simp
  show ?thesis
    using send_message_reaches_sender_too[OF h] h p r by blast
qed

subsection \<open>Sending to a chat without a log\<close>

text \<open>
  A send to a chat id without a log creates the log: in the empty state, and after the timer
  has discarded the log of the empty chat \<open>c2\<close>.
\<close>

theorem send_to_missing_log_counterexample:
  "map_of (messages init) (m_chatId hi) = None
   \<and> map_of (messages (fst (send_message hi init))) (m_chatId hi) = Some [hi]
   \<and> map_of (messages (fst (cleanup 600006 s_idle))) ''c2'' = None
   \<and> map_of (messages (fst (send_message (hi\<lparr>m_chatId := ''c2''\<rparr>) (fst (cleanup 600006 s_idle))))) ''c2''
       = Some [hi\<lparr>m_chatId := ''c2''\<rparr>]"
  by code_simp

text \<open>
  Claim C3, as the code has it. The specification lets \<open>Append\<close> fail with
  \<open>UnknownChat\<close> when the chat has no log. The handler tests \<open>messages.has(chatId)\<close> and,
  when there is no log, creates an empty one and appends to it: after a send to a chat id
  without a log, the log of that id holds exactly the message sent. The chat directory is
  not changed, and when the chat is not in the directory nothing is delivered.
\<close>

theorem send_message_creates_missing_log:
  assumes "map_of (messages s) (m_chatId m) = None"
  shows "map_of (messages (fst (send_message m s))) (m_chatId m) = Some [m]
         \<and> get_messages (fst (send_message m s)) (m_chatId m) = [m]
         \<and> chats (fst (send_message m s)) = chats s
         \<and> (map_of (chats s) (m_chatId m) = None \<longrightarrow> snd (send_message m s) = [])"
  using assms by (simp add: messages_send get_messages_send send_message_out) (simp add: get_messages_def)

text \<open>
  In the empty state the chat of "hi" has neither a log nor a directory entry.
\<close>

theorem send_message_creates_missing_log_witness:
  "map_of (messages init) (m_chatId hi) = None
   \<and> map_of (chats init) (m_chatId hi) = None
   \<and> get_messages (fst (send_message hi init)) (m_chatId hi) = [hi]
   \<and> snd (send_message hi init) = []"
proof -
  have h: "map_of (messages init) (m_chatId hi) = None"
    by (simp add: init_def)
  have c: "map_of (chats init) (m_chatId hi) = None"
    by (simp add: init_def)
  show ?thesis
    using send_message_creates_missing_log[OF h] h c by blast
qed

subsection \<open>Coming online twice\<close>

text \<open>
  \<open>alice\<close> comes online on \<open>s1\<close> and then on \<open>s2\<close>. The registry names \<open>s2\<close>, and both
  sockets receive what is sent to her: the \<open>chat-created\<close> of a chat she is in, and a
  message to that chat.
\<close>

theorem superseded_socket_still_served_counterexample:
  "map_option u_socketId (map_of (users s_two_sockets) ''alice'') = Some ''s2''
   \<and> snd (create_chat 3 c1_data s_two_sockets) =
       [(''s1'', ChatCreated (new_chat 3 c1_data)), (''s2'', ChatCreated (new_chat 3 c1_data))]
   \<and> snd (send_message hi (fst (create_chat 3 c1_data s_two_sockets))) =
       [(''s1'', NewMessage hi), (''s2'', NewMessage hi)]"
  by code_simp

text \<open>
  Claim C4, as the code has it. After \<open>user-online\<close> for the same user on socket
  \<open>c1\<close> and then on socket \<open>c2\<close>, the registry's socket id of the user is \<open>c2\<close>, as the
  specification says. The first socket is not taken out of the user's room, though: both
  sockets are in the room, every event emitted to the room reaches \<open>c1\<close>, and so does every
  message sent to a chat the user is a participant of. This lasts: after any further run of
  the server in which the socket \<open>c1\<close> does not disconnect, an event emitted to the user's
  room still reaches \<open>c1\<close>.
\<close>

theorem second_user_online_replaces_socket_id_only:
  assumes "ud_userId d2 = ud_userId d1"
  shows "map_option u_socketId
           (map_of (users (fst (user_online t2 c2 d2 (fst (user_online t1 c1 d1 s))))) (ud_userId d1)) = Some c2
         \<and> c1 \<in> set (room_members (fst (user_online t2 c2 d2 (fst (user_online t1 c1 d1 s)))) (user_room (ud_userId d1)))
         \<and> c2 \<in> set (room_members (fst (user_online t2 c2 d2 (fst (user_online t1 c1 d1 s)))) (user_room (ud_userId d1)))
         \<and> (c1, ev) \<in> set (io_to_emit (fst (user_online t2 c2 d2 (fst (user_online t1 c1 d1 s)))) (user_room (ud_userId d1)) ev)
         \<and> (\<forall>m cht. map_of (chats (fst (user_online t2 c2 d2 (fst (user_online t1 c1 d1 s))))) (m_chatId m) = Some cht
               \<and> ud_userId d1 \<in> set (c_participants cht)
             \<longrightarrow> (c1, NewMessage m) \<in> set (snd (send_message m (fst (user_online t2 c2 d2 (fst (user_online t1 c1 d1 s)))))))
         \<and> (\<forall>tr. (\<forall>e \<in> set tr. \<not> (fst (snd e) = c1 \<and> snd (snd e) = OnDisconnect))
             \<longrightarrow> (c1, ev) \<in> set (io_to_emit (fst (run tr (fst (user_online t2 c2 d2 (fst (user_online t1 c1 d1 s))))))
                                   (user_room (ud_userId d1)) ev))"
proof -
  let ?s2 = "fst (user_online t2 c2 d2 (fst (user_online t1 c1 d1 s)))"
  have u: "map_option u_socketId (map_of (users ?s2) (ud_userId d1)) = Some c2"
    using users_user_online[of t2 c2 d2 "fst (user_online t1 c1 d1 s)"] assms by simp
  have r1: "c1 \<in> set (room_members ?s2 (user_room (ud_userId d1)))"
    by (simp add: room_members_user_online assms)
  have r2: "c2 \<in> set (room_members ?s2 (user_room (ud_userId d1)))"
    by (simp add: room_members_user_online assms)
  have e: "(c1, ev) \<in> set (io_to_emit ?s2 (user_room (ud_userId d1)) ev)"
    using r1 by (simp add: set_io_to_emit)
  have f: "(c1, NewMessage m) \<in> set (snd (send_message m ?s2))"
    if "map_of (chats ?s2) (m_chatId m) = Some cht" "ud_userId d1 \<in> set (c_participants cht)" for m cht
    using send_message_set[OF that(1)] that(2) r1 by auto
  have g: "(c1, ev) \<in> set (io_to_emit (fst (run tr ?s2)) (user_room (ud_userId d1)) ev)"
    if "\<forall>e \<in> set tr. \<not> (fst (snd e) = c1 \<and> snd (snd e) = OnDisconnect)" for tr
  proof -
    have "(user_room (ud_userId d1), c1) \<in> set (rooms ?s2)"
      using r1 by (simp add: in_room_members)
    then have "(user_room (ud_userId d1), c1) \<in> set (rooms (fst (run tr ?s2)))"
      using that by (rule rooms_run)
    then show ?thesis by (simp add: set_io_to_emit in_room_members)
  qed
  show ?thesis using u r1 r2 e f g by blast
qed

text \<open>
  From the state that holds only the chat \<open>c1\<close> of \<open>alice\<close> and \<open>bob\<close>: \<open>alice\<close> comes
  online on \<open>s1\<close>, then on \<open>s2\<close>. The registry names \<open>s2\<close>; \<open>s1\<close> is in her room, receives
  the message "hi" sent to \<open>c1\<close>, and is still reached after \<open>s2\<close> has disconnected.
\<close>

theorem second_user_online_replaces_socket_id_only_witness:
  "ud_userId alice = ud_userId alice
   \<and> map_option u_socketId
       (map_of (users (fst (user_online 2 ''s2'' alice (fst (user_online 1 ''s1'' alice (fst (create_chat 0 c1_data init)))))))
          ''alice'') = Some ''s2''
   \<and> ''s1'' \<in> set (room_members
         (fst (user_online 2 ''s2'' alice (fst (user_online 1 ''s1'' alice (fst (create_chat 0 c1_data init))))))
         (user_room ''alice''))
   \<and> (''s1'', NewMessage hi) \<in> set (snd (send_message hi
         (fst (user_online 2 ''s2'' alice (fst (user_online 1 ''s1'' alice (fst (create_chat 0 c1_data init))))))))
   \<and> (''s1'', UserOffline ''bob'' 7) \<in> set (io_to_emit
         (fst (run [(3, ''s2'', OnDisconnect), (4, ''sb'', OnConnection)]
            (fst (user_online 2 ''s2'' alice (fst (user_online 1 ''s1'' alice (fst (create_chat 0 c1_data init))))))))
         (user_room ''alice'') (UserOffline ''bob'' 7))"
proof -
  let ?s0 = "fst (create_chat 0 c1_data init)"
  let ?s2 = "fst (user_online 2 ''s2'' alice (fst (user_online 1 ''s1'' alice ?s0)))"
  let ?tr = "[(3, ''s2'', OnDisconnect), (4, ''sb'', OnConnection)]"
  have i: "ud_userId alice = ''alice''"
    by (simp add: alice_def)
  note t = second_user_online_replaces_socket_id_only[of alice alice 2 "''s2''" 1 "''s1''" ?s0, OF refl, unfolded i]
  have c: "map_of (chats ?s2) (m_chatId hi) = Some (new_chat 0 c1_data)"
    by code_simp
  have p: "''alice'' \<in> set (c_participants (new_chat 0 c1_data))"
    by code_simp
  have k: "\<forall>e \<in> set ?tr. \<not> (fst (snd e) = ''s1'' \<and> snd (snd e) = OnDisconnect)"
    by simp
  have 1: "map_option u_socketId (map_of (users ?s2) ''alice'') = Some ''s2''"
    using t by blast
  have 2: "''s1'' \<in> set (room_members ?s2 (user_room ''alice''))"
    using t by blast
  have 3: "(''s1'', NewMessage hi) \<in> set (snd (send_message hi ?s2))"
    using t c p by blast
  have 4: "(''s1'', UserOffline ''bob'' 7) \<in> set (io_to_emit (fst (run ?tr ?s2)) (user_room ''alice'') (UserOffline ''bob'' 7))"
    using t k by blast
  show ?thesis using 1 2 3 4 by blast
qed

subsection \<open>Read receipts\<close>

text \<open>
  \<open>bob\<close> marks the stored message \<open>m1\<close> of \<open>c1\<close> as read: the stored message is as it
  was, with its empty read-by list. A receipt for a message id that no log holds is
  delivered like any other.
\<close>

theorem mark_as_read_stores_nothing_counterexample:
  "map_of (chats s_sent) ''c1'' = Some (new_chat 3 c1_data)
   \<and> get_messages s_sent ''c1'' = [hi] \<and> m_id hi = ''m1''
   \<and> map m_readBy (get_messages (fst (mark_as_read ''c1'' ''bob'' ''m1'' s_sent)) ''c1'') = [[]]
   \<and> snd (mark_as_read ''c1'' ''bob'' ''no-such-message'' s_sent) =
       [(''sa'', MessageRead ''c1'' ''no-such-message'' ''bob'')]"
  by code_simp

text \<open>
  Claim C5, as the code has it. The specification lets \<open>MarkRead\<close> add the reader to the
  read-by set of the stored message. The handler does not touch the message store (nor any
  other container): the state after it is the state before it. What it does is notify: when
  the chat is unknown nothing is delivered; when the chat exists, \<open>message-read\<close> with the
  chat id, the message id and the reader goes to exactly the sockets in the rooms of the
  participants other than the reader, whether or not a message of that id is stored.
\<close>

theorem mark_as_read_only_notifies:
  "fst (mark_as_read chatId userId messageId s) = s
   \<and> (map_of (chats s) chatId = None \<longrightarrow> snd (mark_as_read chatId userId messageId s) = [])
   \<and> (\<forall>cht. map_of (chats s) chatId = Some cht \<longrightarrow>
        set (snd (mark_as_read chatId userId messageId s)) =
          {(sock, MessageRead chatId messageId userId) | sock p.
             p \<in> set (c_participants cht) \<and> p \<noteq> userId \<and> sock \<in> set (room_members s (user_room p))})"
  using mark_as_read_set[of s chatId _ userId messageId]
  by (simp add: mark_as_read_def)

text \<open>
  With the message "hi" stored in \<open>c1\<close>: a receipt of \<open>bob\<close> reaches the socket of
  \<open>alice\<close> and leaves the state as it was; a receipt for the unknown chat \<open>c9\<close> delivers
  nothing.
\<close>

theorem mark_as_read_only_notifies_witness:
  "map_of (chats s_sent) ''c1'' = Some (new_chat 3 c1_data)
   \<and> map_of (chats s_sent) ''c9'' = None
   \<and> fst (mark_as_read ''c1'' ''bob'' ''m1'' s_sent) = s_sent
   \<and> snd (mark_as_read ''c9'' ''bob'' ''m1'' s_sent) = []
   \<and> (''sa'', MessageRead ''c1'' ''m1'' ''bob'') \<in> set (snd (mark_as_read ''c1'' ''bob'' ''m1'' s_sent))"
proof -
  have h: "map_of (chats s_sent) ''c1'' = Some (new_chat 3 c1_data)" by code_simp
  have n: "map_of (chats s_sent) ''c9'' = None" by code_simp
  have p: "''alice'' \<in> set (c_participants (new_chat 3 c1_data))" by code_simp
  have r: "''sa'' \<in> set (room_members s_sent (user_room ''alice''))" by code_simp
  have 1: "fst (mark_as_read ''c1'' ''bob'' ''m1'' s_sent) = s_sent"
    using mark_as_read_only_notifies[of "''c1''" "''bob''" "''m1''" s_sent] by blast
  have 2: "snd (mark_as_read ''c9'' ''bob'' ''m1'' s_sent) = []"
    using mark_as_read_only_notifies[of "''c9''" "''bob''" "''m1''" s_sent] n by blast
  have 3: "(''sa'', MessageRead ''c1'' ''m1'' ''bob'') \<in> set (snd (mark_as_read ''c1'' ''bob'' ''m1'' s_sent))"
    using mark_as_read_only_notifies[of "''c1''" "''bob''" "''m1''" s_sent] h p r by auto
  show ?thesis using h n 1 2 3 by blast
qed

subsection \<open>Joining and leaving\<close>

text \<open>
  The handlers keep the participant list they are given. A chat created with the same
  participant twice has a duplicate, and a join after it does not remove it.
\<close>

theorem join_on_duplicated_participants_counterexample:
  "participants_of (fst (create_chat 3 c1_twice init)) ''c1'' = [''alice'', ''alice'']
   \<and> participants_of (apply_ops [Join ''c1'' ''bob''] (fst (create_chat 3 c1_twice init))) ''c1''
       = [''alice'', ''alice'', ''bob'']
   \<and> \<not> distinct (participants_of (apply_ops [Join ''c1'' ''bob''] (fst (create_chat 3 c1_twice init))) ''c1'')"
  by code_simp

text \<open>
  Claim C6, as the code has it. \<open>create-chat\<close> stores the participant list of the request
  as it came, so a chat can hold a duplicate before any join or leave. Join and leave never
  add one: for a chat whose participant list is free of duplicates, it stays so under every
  sequence of joins and leaves (on any chats). A leave that names a user who is not a
  participant of the chat leaves the state unchanged, and a join on a chat that does not
  exist, or of a user who is a participant already, leaves the state unchanged and delivers
  nothing.
\<close>

theorem join_leave_keep_participants_distinct:
  "(distinct (participants_of s chatId) \<longrightarrow> distinct (participants_of (apply_ops ops s) chatId))
   \<and> (userId \<notin> set (participants_of s chatId) \<longrightarrow> fst (leave_chat chatId userId s) = s)
   \<and> (map_of (chats s) chatId = None \<or> userId \<in> set (participants_of s chatId)
        \<longrightarrow> join_chat chatId userId s = (s, []))"
  using distinct_apply_ops[of s chatId ops] leave_non_member[of userId s chatId]
    join_no_change[of s chatId userId]
  by blast

text \<open>
  On the chat \<open>c1\<close> of \<open>alice\<close> and \<open>bob\<close>.
\<close>

theorem join_leave_keep_participants_distinct_witness:
  "distinct (participants_of s_chat ''c1'')
   \<and> distinct (participants_of
        (apply_ops [Join ''c1'' ''carol'', Join ''c1'' ''alice'', Leave ''c1'' ''bob'', Leave ''c1'' ''dave'']
           s_chat) ''c1'')
   \<and> ''carol'' \<notin> set (participants_of s_chat ''c1'')
   \<and> fst (leave_chat ''c1'' ''carol'' s_chat) = s_chat
   \<and> ''alice'' \<in> set (participants_of s_chat ''c1'')
   \<and> join_chat ''c1'' ''alice'' s_chat = (s_chat, [])
   \<and> map_of (chats s_chat) ''c9'' = None
   \<and> join_chat ''c9'' ''alice'' s_chat = (s_chat, [])"
proof -
  have d: "distinct (participants_of s_chat ''c1'')" by code_simp
  have c: "''carol'' \<notin> set (participants_of s_chat ''c1'')" by code_simp
  have a: "''alice'' \<in> set (participants_of s_chat ''c1'')" by code_simp
  have n: "map_of (chats s_chat) ''c9'' = None" by code_simp
  have 1: "distinct (participants_of
        (apply_ops [Join ''c1'' ''carol'', Join ''c1'' ''alice'', Leave ''c1'' ''bob'', Leave ''c1'' ''dave'']
           s_chat) ''c1'')"
    using join_leave_keep_participants_distinct[of s_chat "''c1''"] d by blast
  have 2: "fst (leave_chat ''c1'' ''carol'' s_chat) = s_chat"
    using join_leave_keep_participants_distinct[of s_chat "''c1''" _ "''carol''"] c by blast
  have 3: "join_chat ''c1'' ''alice'' s_chat = (s_chat, [])"
    using join_leave_keep_participants_distinct[of s_chat "''c1''" _ "''alice''"] a by blast
  have 4: "join_chat ''c9'' ''alice'' s_chat = (s_chat, [])"
    using join_leave_keep_participants_distinct[of s_chat "''c9''" _ "''alice''"] n by blast
  show ?thesis using d c a n 1 2 3 4 by blast
qed

subsection \<open>History\<close>

text \<open>
  Messages that were appended can be missing from the answer. "hi" is sent to \<open>c1\<close> before
  \<open>c1\<close> is created (the send creates the log) and the create request empties the log; the
  chat \<open>c1\<close> with "hi" in its log is created again; the timer discards the log of the chat
  \<open>c2\<close>, which has no participants.
\<close>

theorem history_loses_messages_appended_before_a_reset_counterexample:
  "sent_to ''c1'' [(3, ''sa'', OnSendMessage hi), (4, ''sa'', OnCreateChat c1_data)] = [hi]
   \<and> get_messages (fst (run [(3, ''sa'', OnSendMessage hi)] s_online)) ''c1'' = [hi]
   \<and> get_messages (fst (run [(3, ''sa'', OnSendMessage hi), (4, ''sa'', OnCreateChat c1_data)] s_online)) ''c1'' = []
   \<and> get_messages s_sent ''c1'' = [hi]
   \<and> get_messages (fst (create_chat 9 c1_data s_sent)) ''c1'' = []
   \<and> get_messages s_idle ''c2'' = [hi\<lparr>m_chatId := ''c2''\<rparr>]
   \<and> get_messages (fst (cleanup 600006 s_idle)) ''c2'' = []"
  by code_simp

text \<open>
  Claim C7, as the code has it. \<open>get-messages\<close> answers with the log the chat has now, not
  with every message ever appended: a create request for the chat id replaces the log by the
  empty one, and the timer discards the log when it finds the chat without participants
  (\<open>discards_log\<close>). Apart from that the log only grows at its end. After any sequence of
  sends (to any chats) the answer for a chat is the answer before, followed by the messages
  sent to that chat, all of them and in the order sent. One event of any kind either discards
  the log (the answer is then empty) or appends what it sends to the chat; so over a run in
  which no event discards the log (timer runs that find the chat with a participant, or not
  in the directory, are such events) the answer is the answer before followed by the
  messages the run sent to the chat, and after an event that discards the log the answer is
  exactly the messages sent to the chat since. For a chat id without a log the answer is the
  empty list; \<open>get_messages\<close> has no error result. (\<open>wf\<close>: the keys of each Map are pairwise
  different, as in every state the server reaches.)
\<close>

theorem history_is_the_log_since_the_last_reset:
  "get_messages (send_all ms s) chatId = get_messages s chatId @ filter (\<lambda>m. m_chatId m = chatId) ms
   \<and> (wf s \<longrightarrow> get_messages (fst (step now sid ev s)) chatId =
         (if discards_log chatId ev s then [] else get_messages s chatId @ sent_to chatId [(now, sid, ev)]))
   \<and> (wf s \<and> keeps_log chatId tr s
        \<longrightarrow> get_messages (fst (run tr s)) chatId = get_messages s chatId @ sent_to chatId tr)
   \<and> (wf s \<and> discards_log chatId ev (fst (run tr1 s))
         \<and> keeps_log chatId tr2 (fst (step now sid ev (fst (run tr1 s))))
        \<longrightarrow> get_messages (fst (run (tr1 @ (now, sid, ev) # tr2) s)) chatId = sent_to chatId tr2)
   \<and> (map_of (messages s) chatId = None \<longrightarrow> get_messages s chatId = [])"
proof -
  have 1: "get_messages (send_all ms s) chatId = get_messages s chatId @ filter (\<lambda>m. m_chatId m = chatId) ms"
    by (rule get_messages_send_all)
  have 2: "wf s \<longrightarrow> get_messages (fst (step now sid ev s)) chatId =
         (if discards_log chatId ev s then [] else get_messages s chatId @ sent_to chatId [(now, sid, ev)])"
    using get_messages_step[of s now sid ev chatId] by blast
  have 3: "wf s \<and> keeps_log chatId tr s
        \<longrightarrow> get_messages (fst (run tr s)) chatId = get_messages s chatId @ sent_to chatId tr"
    using get_messages_run[of s chatId tr] by blast
  have 4: "wf s \<and> discards_log chatId ev (fst (run tr1 s))
         \<and> keeps_log chatId tr2 (fst (step now sid ev (fst (run tr1 s))))
        \<longrightarrow> get_messages (fst (run (tr1 @ (now, sid, ev) # tr2) s)) chatId = sent_to chatId tr2"
    using get_messages_since_discard[of s chatId ev tr1 tr2 now sid] by blast
  have 5: "map_of (messages s) chatId = None \<longrightarrow> get_messages s chatId = []"
    by (simp add: get_messages_def)
  show ?thesis using 1 2 3 4 5 by blast
qed

text \<open>
  On the fresh chat \<open>c1\<close>: two messages to \<open>c1\<close> with one to \<open>c2\<close> between them; the same
  two messages in a run with a join, a run of the timer and a disconnect; a message sent
  before \<open>c1\<close> is created and one sent after; and the unknown chat \<open>c9\<close>.
\<close>

theorem history_is_the_log_since_the_last_reset_witness:
  "wf s_chat \<and> wf s_online
   \<and> get_messages s_chat ''c1'' = []
   \<and> get_messages (send_all [hi, hi\<lparr>m_chatId := ''c2''\<rparr>, hi\<lparr>m_id := ''m2'', m_content := ''again''\<rparr>] s_chat) ''c1''
       = [hi, hi\<lparr>m_id := ''m2'', m_content := ''again''\<rparr>]
   \<and> keeps_log ''c1'' [(4, ''sa'', OnSendMessage hi), (5, ''sb'', OnJoinChat ''c1'' ''carol''),
                       (6, ''sa'', OnTimer),
                       (7, ''sb'', OnSendMessage (hi\<lparr>m_id := ''m2'', m_content := ''again''\<rparr>)),
                       (8, ''sb'', OnDisconnect)] s_chat
   \<and> get_messages (fst (run [(4, ''sa'', OnSendMessage hi), (5, ''sb'', OnJoinChat ''c1'' ''carol''),
                               (6, ''sa'', OnTimer),
                               (7, ''sb'', OnSendMessage (hi\<lparr>m_id := ''m2'', m_content := ''again''\<rparr>)),
                               (8, ''sb'', OnDisconnect)] s_chat)) ''c1''
       = [hi, hi\<lparr>m_id := ''m2'', m_content := ''again''\<rparr>]
   \<and> discards_log ''c1'' (OnCreateChat c1_data) (fst (run [(3, ''sa'', OnSendMessage hi)] s_online))
   \<and> get_messages (fst (step 4 ''sa'' (OnCreateChat c1_data) (fst (run [(3, ''sa'', OnSendMessage hi)] s_online)))) ''c1'' = []
   \<and> get_messages (fst (run ([(3, ''sa'', OnSendMessage hi)] @ (4, ''sa'', OnCreateChat c1_data) #
                               [(5, ''sb'', OnSendMessage (hi\<lparr>m_id := ''m2'', m_content := ''again''\<rparr>))]) s_online)) ''c1''
       = [hi\<lparr>m_id := ''m2'', m_content := ''again''\<rparr>]
   \<and> map_of (messages s_chat) ''c9'' = None
   \<and> get_messages s_chat ''c9'' = []"
proof -
  let ?m2 = "hi\<lparr>m_id := ''m2'', m_content := ''again''\<rparr>"
  let ?ms = "[hi, hi\<lparr>m_chatId := ''c2''\<rparr>, ?m2]"
  let ?tr = "[(4, ''sa'', OnSendMessage hi), (5, ''sb'', OnJoinChat ''c1'' ''carol''), (6, ''sa'', OnTimer),
              (7, ''sb'', OnSendMessage ?m2), (8, ''sb'', OnDisconnect)]"
  let ?tr1 = "[(3, ''sa'', OnSendMessage hi)]"
  let ?tr2 = "[(5, ''sb'', OnSendMessage ?m2)]"
  let ?s1 = "fst (run ?tr1 s_online)"
  have wo: "wf s_online"
    unfolding s_online_def by (intro wf_run wf_init)
  have wc: "wf s_chat"
    using wf_step[OF wo, of 3 "''sa''" "OnCreateChat c1_data"] by (simp add: s_chat_def)
  have e: "get_messages s_chat ''c1'' = []" by code_simp
  have n: "map_of (messages s_chat) ''c9'' = None" by code_simp
  have k: "keeps_log ''c1'' ?tr s_chat" by code_simp
  have d: "discards_log ''c1'' (OnCreateChat c1_data) ?s1" by (simp add: c1_data_def)
  have k2: "keeps_log ''c1'' ?tr2 (fst (step 4 ''sa'' (OnCreateChat c1_data) ?s1))" by simp
  have f: "filter (\<lambda>m. m_chatId m = ''c1'') ?ms = [hi, ?m2]"
    by (simp add: hi_def)
  have g: "sent_to ''c1'' ?tr = [hi, ?m2]" "sent_to ''c1'' ?tr2 = [?m2]"
    by (simp_all add: hi_def)
  have 1: "get_messages (send_all ?ms s_chat) ''c1'' = [hi, ?m2]"
    using history_is_the_log_since_the_last_reset[of ?ms s_chat "''c1''"] e f by simp
  have 2: "get_messages (fst (run ?tr s_chat)) ''c1'' = [hi, ?m2]"
    using history_is_the_log_since_the_last_reset[of _ s_chat "''c1''" _ _ _ ?tr] wc k e g(1) by simp
  have 3: "get_messages (fst (step 4 ''sa'' (OnCreateChat c1_data) ?s1)) ''c1'' = []"
    using history_is_the_log_since_the_last_reset[of _ ?s1 "''c1''" 4 "''sa''" "OnCreateChat c1_data"]
      wf_run[OF wo, of ?tr1] d by simp
  have 4: "get_messages (fst (run (?tr1 @ (4, ''sa'', OnCreateChat c1_data) # ?tr2) s_online)) ''c1'' = [?m2]"
    using history_is_the_log_since_the_last_reset[of _ s_online "''c1''" 4 "''sa''" "OnCreateChat c1_data" _ ?tr1 ?tr2]
      wo d k2 g(2) by simp
  have 5: "get_messages s_chat ''c9'' = []"
    using history_is_the_log_since_the_last_reset[of _ s_chat "''c9''"] n by blast
  show ?thesis using wo wc e n k d 1 2 3 4 5 by blast
qed

subsection \<open>The cleanup timer\<close>

text \<open>
  Claim C8. A run of the timer at time \<open>now\<close> removes from \<open>users\<close> exactly the entries of
  the users that are offline and whose last-seen time lies more than 600000 ms (10 minutes)
  before \<open>now\<close>, removes from \<open>chats\<close> exactly the entries of the chats without
  participants, and removes from \<open>messages\<close> exactly the logs of those chats; the entries
  that stay are unchanged and in their order. The set of online users and the sockets and
  rooms are unchanged and nothing is emitted. Every chat that has a participant stays as it
  was, so its participant list still names the users that were removed. The hypothesis
  \<open>wf\<close> says that the keys of each Map are pairwise different, as the keys of a JavaScript
  Map are; it holds at the start and every handler keeps it (\<open>wf_init\<close>, \<open>wf_step\<close>,
  \<open>wf_run\<close>).
\<close>

theorem cleanup_removes_exactly_idle_users_and_empty_chats:
  assumes "wf s"
  shows "users (fst (cleanup now s)) =
           filter (\<lambda>(userId, usr). \<not> (\<not> u_isOnline usr \<and> now - u_lastSeen usr > 600000)) (users s)
         \<and> chats (fst (cleanup now s)) = filter (\<lambda>(chatId, cht). c_participants cht \<noteq> []) (chats s)
         \<and> messages (fst (cleanup now s)) =
             filter (\<lambda>(chatId, log). \<not> (\<exists>cht. map_of (chats s) chatId = Some cht \<and> c_participants cht = []))
               (messages s)
         \<and> onlineUsers (fst (cleanup now s)) = onlineUsers s
         \<and> sockets (fst (cleanup now s)) = sockets s
         \<and> rooms (fst (cleanup now s)) = rooms s
         \<and> snd (cleanup now s) = []
         \<and> (\<forall>chatId cht. map_of (chats s) chatId = Some cht \<and> c_participants cht \<noteq> []
               \<longrightarrow> map_of (chats (fst (cleanup now s))) chatId = Some cht)"
proof -
  have du: "distinct (map fst (users s))" and dc: "distinct (map fst (chats s))"
    using assms by (simp_all add: wf_def)
  have u: "users (fst (cleanup now s)) =
             filter (\<lambda>(userId, usr). \<not> (\<not> u_isOnline usr \<and> now - u_lastSeen usr > 600000)) (users s)"
    by (simp add: cleanup_state sweep_users_filter[OF du] stale_def timeout_val)
  have c: "chats (fst (cleanup now s)) = filter (\<lambda>(chatId, cht). c_participants cht \<noteq> []) (chats s)"
    by (simp add: cleanup_state sweep_chats_filter[OF dc])
  have m: "messages (fst (cleanup now s)) =
             filter (\<lambda>(chatId, log). \<not> (\<exists>cht. map_of (chats s) chatId = Some cht \<and> c_participants cht = []))
               (messages s)"
    by (simp add: cleanup_state sweep_chats_filter[OF dc])
  have r: "onlineUsers (fst (cleanup now s)) = onlineUsers s" "sockets (fst (cleanup now s)) = sockets s"
    "rooms (fst (cleanup now s)) = rooms s" "snd (cleanup now s) = []"
    by (simp_all add: cleanup_state) (simp add: cleanup_def Let_def split: prod.splits)
  have k: "map_of (chats (fst (cleanup now s))) chatId = Some cht"
    if "map_of (chats s) chatId = Some cht" "c_participants cht \<noteq> []" for chatId cht
    unfolding c using that by (intro map_of_filter_in) simp_all
  show ?thesis using u c m r k by blast
qed

text \<open>
  \<open>bob\<close> went offline at time 5. The timer at 600006 removes him, the empty chat \<open>c2\<close> and
  its log, and \<open>c1\<close> still lists \<open>bob\<close>; at 600005 his last-seen time is not yet more than
  the threshold ago and he stays.
\<close>

theorem cleanup_removes_exactly_idle_users_and_empty_chats_witness:
  "wf s_idle
   \<and> map fst (users s_idle) = [''alice'', ''bob'']
   \<and> map fst (users (fst (cleanup 600006 s_idle))) = [''alice'']
   \<and> map fst (users (fst (cleanup 600005 s_idle))) = [''alice'', ''bob'']
   \<and> map fst (chats s_idle) = [''c1'', ''c2'']
   \<and> map fst (chats (fst (cleanup 600006 s_idle))) = [''c1'']
   \<and> map fst (messages (fst (cleanup 600006 s_idle))) = [''c1'']
   \<and> participants_of (fst (cleanup 600006 s_idle)) ''c1'' = [''alice'', ''bob'']"
proof -
  have w: "wf s_idle"
    unfolding s_idle_def by (intro wf_run wf_init)
  have v: "users s_idle =
     [(''alice'', \<lparr>u_id = ''alice'', u_socketId = ''sa'', u_username = ''alice'',
                   u_displayName = ''Alice'', u_isOnline = True, u_lastSeen = 1\<rparr>),
      (''bob'', \<lparr>u_id = ''bob'', u_socketId = ''sb'', u_username = ''bob'',
                 u_displayName = ''Bob'', u_isOnline = False, u_lastSeen = 5\<rparr>)]"
    by code_simp
  have c: "chats s_idle = [(''c1'', new_chat 3 c1_data), (''c2'', new_chat 3 c2_data)]"
    by code_simp
  have m: "messages s_idle = [(''c1'', [hi]), (''c2'', [hi\<lparr>m_chatId := ''c2''\<rparr>])]"
    by code_simp
  have p: "c_participants (new_chat 3 c1_data) = [''alice'', ''bob'']" "c_participants (new_chat 3 c2_data) = []"
    by (simp_all add: new_chat_def c1_data_def c2_data_def)
  note t6 = cleanup_removes_exactly_idle_users_and_empty_chats[OF w, of 600006]
  note t5 = cleanup_removes_exactly_idle_users_and_empty_chats[OF w, of 600005]
  have 1: "map fst (users (fst (cleanup 600006 s_idle))) = [''alice'']"
    using t6 by (simp add: v)
  have 2: "map fst (users (fst (cleanup 600005 s_idle))) = [''alice'', ''bob'']"
    using t5 by (simp add: v)
  have 3: "chats (fst (cleanup 600006 s_idle)) = [(''c1'', new_chat 3 c1_data)]"
    using t6 by (simp add: c p)
  have 4: "map fst (messages (fst (cleanup 600006 s_idle))) = [''c1'']"
  proof -
    from t6 have "messages (fst (cleanup 600006 s_idle)) =
        filter (\<lambda>(chatId, log). \<not> (\<exists>cht. map_of (chats s_idle) chatId = Some cht \<and> c_participants cht = []))
          (messages s_idle)"
      by blast
    then show ?thesis by (simp add: m c p)
  qed
  have 5: "participants_of (fst (cleanup 600006 s_idle)) ''c1'' = [''alice'', ''bob'']"
    by (simp add: participants_of_def 3 p)
  show ?thesis using w 1 2 3 4 5 by (simp add: v c)
qed

subsection \<open>Search\<close>

text \<open>
  Three users with the same names came online in the order \<open>u2\<close>, \<open>u3\<close>, \<open>u1\<close>. The search
  answers in that order, which orders their ids neither upwards nor downwards.
\<close>

theorem search_order_not_by_identity_counterexample:
  "map r_id (search_users ascii_lower s_three ''BO'') = [''u2'', ''u3'', ''u1'']
   \<and> map r_username (search_users ascii_lower s_three ''BO'') = [''bob'', ''bob'', ''bob'']
   \<and> map r_displayName (search_users ascii_lower s_three ''BO'') = [''Bob'', ''Bob'', ''Bob'']
   \<and> \<not> sorted (map r_id (search_users ascii_lower s_three ''BO''))
   \<and> \<not> sorted (rev (map r_id (search_users ascii_lower s_three ''BO'')))"
  by code_simp

text \<open>
  Claim C9, as the code has it. The search answers with the users whose user name or display
  name, in lower case, contains the query in lower case as a contiguous substring; at most
  10 of them. It does not sort: the answer is the first ten such users in the order the
  \<open>users\<close> Map has when the search runs, so the ids of the answer are a subsequence of the
  Map's keys (every user is stored under its id, \<open>keys_are_ids\<close>). That order is made by
  \<open>user-online\<close> and the timer alone: a user id that comes online keeps its place when it is
  in the Map and goes to the end when it is not, the timer removes ids, and no other event
  changes the keys. A user that the timer removed and that comes online again is therefore
  listed after the users that stayed. \<open>toLowerCase\<close> is any function.
\<close>

theorem search_users_first_ten_in_registry_order:
  "search_users toLowerCase s query =
     map (to_result s)
       (take 10 (filter (\<lambda>usr. sublist (toLowerCase query) (toLowerCase (u_username usr)) \<or>
                               sublist (toLowerCase query) (toLowerCase (u_displayName usr)))
                        (map snd (users s))))
   \<and> length (search_users toLowerCase s query) \<le> 10
   \<and> subseq (map r_id (search_users toLowerCase s query)) (map (\<lambda>(userId, usr). u_id usr) (users s))
   \<and> (keys_are_ids s \<longrightarrow> subseq (map r_id (search_users toLowerCase s query)) (map fst (users s)))
   \<and> map fst (users (fst (user_online now sid userData s))) =
       (if ud_userId userData \<in> set (map fst (users s)) then map fst (users s)
        else map fst (users s) @ [ud_userId userData])
   \<and> ((\<forall>d. ev \<noteq> OnUserOnline d)
        \<longrightarrow> subseq (map fst (users (fst (step now sid ev s)))) (map fst (users s)))
   \<and> ((\<forall>d. ev \<noteq> OnUserOnline d) \<and> ev \<noteq> OnTimer
        \<longrightarrow> map fst (users (fst (step now sid ev s))) = map fst (users s))"
proof -
  have 1: "search_users toLowerCase s query =
     map (to_result s)
       (take 10 (filter (\<lambda>usr. sublist (toLowerCase query) (toLowerCase (u_username usr)) \<or>
                               sublist (toLowerCase query) (toLowerCase (u_displayName usr)))
                        (map snd (users s))))"
    by (rule search_users_char)
  have 2: "length (search_users toLowerCase s query) \<le> 10"
    by (simp add: search_users_def)
  have 3: "subseq (map r_id (search_users toLowerCase s query)) (map (\<lambda>(userId, usr). u_id usr) (users s))"
    by (rule search_users_subseq)
  have 4: "keys_are_ids s \<longrightarrow> subseq (map r_id (search_users toLowerCase s query)) (map fst (users s))"
    by (metis 3 keys_are_ids_map)
  have 5: "map fst (users (fst (user_online now sid userData s))) =
       (if ud_userId userData \<in> set (map fst (users s)) then map fst (users s)
        else map fst (users s) @ [ud_userId userData])"
    by (rule users_keys_user_online)
  have 6: "(\<forall>d. ev \<noteq> OnUserOnline d)
        \<longrightarrow> subseq (map fst (users (fst (step now sid ev s)))) (map fst (users s))"
    using users_keys_step[of ev now sid s] by blast
  have 7: "(\<forall>d. ev \<noteq> OnUserOnline d) \<and> ev \<noteq> OnTimer
        \<longrightarrow> map fst (users (fst (step now sid ev s))) = map fst (users s)"
    using users_keys_step_eq[of ev now sid s] by blast
  show ?thesis using 1 2 3 4 5 6 7 by blast
qed

text \<open>
  \<open>u1\<close> came online before \<open>u2\<close>, was removed by the timer and came online again: the
  search lists \<open>u2\<close> first. A new id goes to the end, an id that is registered keeps its
  place, and a disconnect does not change the keys.
\<close>

theorem search_users_first_ten_in_registry_order_witness:
  "keys_are_ids s_back
   \<and> map fst (users s_back) = [''u2'', ''u1'']
   \<and> map r_id (search_users ascii_lower s_back ''BO'') = [''u2'', ''u1'']
   \<and> subseq (map r_id (search_users ascii_lower s_back ''BO'')) (map fst (users s_back))
   \<and> map fst (users (fst (user_online 700003 ''s4''
         \<lparr>ud_userId = ''u3'', ud_username = ''bob'', ud_displayName = ''Bob''\<rparr> s_back))) = [''u2'', ''u1'', ''u3'']
   \<and> map fst (users (fst (user_online 700003 ''s4''
         \<lparr>ud_userId = ''u2'', ud_username = ''rob'', ud_displayName = ''Rob''\<rparr> s_back))) = [''u2'', ''u1'']
   \<and> subseq (map fst (users (fst (step 1400000 ''s2'' OnTimer s_back)))) (map fst (users s_back))
   \<and> map fst (users (fst (step 700003 ''s2'' OnDisconnect s_back))) = [''u2'', ''u1'']"
proof -
  let ?u3 = "\<lparr>ud_userId = ''u3'', ud_username = ''bob'', ud_displayName = ''Bob''\<rparr>"
  let ?u2 = "\<lparr>ud_userId = ''u2'', ud_username = ''rob'', ud_displayName = ''Rob''\<rparr>"
  have i: "keys_are_ids s_back"
    unfolding s_back_def by (intro keys_are_ids_run keys_are_ids_init)
  have u: "map fst (users s_back) = [''u2'', ''u1'']" by code_simp
  have r: "map r_id (search_users ascii_lower s_back ''BO'') = [''u2'', ''u1'']" by code_simp
  have 1: "subseq (map r_id (search_users ascii_lower s_back ''BO'')) (map fst (users s_back))"
    using search_users_first_ten_in_registry_order[of ascii_lower s_back "''BO''"] i by blast
  have 2: "map fst (users (fst (user_online 700003 ''s4'' ?u3 s_back))) = [''u2'', ''u1'', ''u3'']"
    using search_users_first_ten_in_registry_order[of _ s_back _ 700003 "''s4''" ?u3] u by simp
  have 3: "map fst (users (fst (user_online 700003 ''s4'' ?u2 s_back))) = [''u2'', ''u1'']"
    using search_users_first_ten_in_registry_order[of _ s_back _ 700003 "''s4''" ?u2] u by simp
  have 4: "subseq (map fst (users (fst (step 1400000 ''s2'' OnTimer s_back)))) (map fst (users s_back))"
    using search_users_first_ten_in_registry_order[of _ s_back _ 1400000 "''s2''" _ OnTimer] by blast
  have 5: "map fst (users (fst (step 700003 ''s2'' OnDisconnect s_back))) = [''u2'', ''u1'']"
    using search_users_first_ten_in_registry_order[of _ s_back _ 700003 "''s2''" _ OnDisconnect] u by simp
  show ?thesis using i u r 1 2 3 4 5 by blast
qed

subsection \<open>Creating a chat under an id that exists\<close>

text \<open>
  Claim C10. A create request whose id is the id of a chat in the directory replaces that
  chat by the chat built from the request (its type, name, description, participants,
  admins, owner, and the time of the request) and replaces the log of that id by the empty
  log: \<open>get-messages\<close> for the id answers with the empty list, so no message stored before
  is in the answer. The chat keeps its place in the directory.
\<close>

theorem create_chat_existing_id_overwrites:
  assumes "map_of (chats s) (cd_id d) = Some old"
  shows "map_of (chats (fst (create_chat now d s))) (cd_id d) =
           Some \<lparr>c_id = cd_id d, c_type = cd_type d, c_name = cd_name d,
                 c_description = cd_description d, c_participants = cd_participants d,
                 c_admins = (case cd_admins d of Some a \<Rightarrow> a | None \<Rightarrow> [cd_creatorId d]),
                 c_owner = cd_creatorId d, c_createdAt = now\<rparr>
         \<and> map_of (messages (fst (create_chat now d s))) (cd_id d) = Some []
         \<and> get_messages (fst (create_chat now d s)) (cd_id d) = []
         \<and> (\<forall>m \<in> set (get_messages s (cd_id d)).
               m \<notin> set (get_messages (fst (create_chat now d s)) (cd_id d)))
         \<and> map fst (chats (fst (create_chat now d s))) = map fst (chats s)"
  using create_chat_keys[OF assms]
  by (simp add: chats_create messages_create new_chat_def get_messages_create)

text \<open>
  The chat \<open>c1\<close> holds the message "hi"; it is created again under a new name.
\<close>

theorem create_chat_existing_id_overwrites_witness:
  "map_of (chats s_sent) (cd_id (c1_data\<lparr>cd_name := ''renamed''\<rparr>)) = Some (new_chat 3 c1_data)
   \<and> get_messages s_sent ''c1'' = [hi]
   \<and> map_option c_name (map_of (chats (fst (create_chat 9 (c1_data\<lparr>cd_name := ''renamed''\<rparr>) s_sent))) ''c1'')
       = Some ''renamed''
   \<and> get_messages (fst (create_chat 9 (c1_data\<lparr>cd_name := ''renamed''\<rparr>) s_sent)) ''c1'' = []"
proof -
  have h: "map_of (chats s_sent) (cd_id (c1_data\<lparr>cd_name := ''renamed''\<rparr>)) = Some (new_chat 3 c1_data)"
    by code_simp
  have g: "get_messages s_sent ''c1'' = [hi]"
    by code_simp
  have i: "cd_id (c1_data\<lparr>cd_name := ''renamed''\<rparr>) = ''c1''"
    by (simp add: c1_data_def)
  show ?thesis
    using create_chat_existing_id_overwrites[OF h, of 9] h g by (simp add: i)
qed

end
